theory Spec2Isabelle
  imports Main "HOL-Library.Sublist"
begin

section \<open>The service worker of MindChat (public/sw.js)\<close>

text \<open>
  The worker sits between the page and the network. Its own code is sequential between
  suspension points; everything it touches outside itself is a platform object: the cache
  storage, the IndexedDB database, the network, the windows and the notification centre. The
  model keeps these in one state record that every handler takes and returns. The network
  is an argument of every handler that fetches: it answers the \<open>n\<close>-th fetch the worker ever
  issued, so that two fetches of the same request may end differently.

  The platform calls that can fail on a well-formed input are modelled with their failure:
  \<open>fetch\<close> (the network), \<open>cache.put\<close> and \<open>cache.add\<close> (which refuse some responses) and
  \<open>request.text()\<close> (which refuses a body already taken). Opening a cache or the database,
  reading and deleting are taken to succeed.
\<close>

subsection \<open>Requests, responses, errors\<close>

datatype json =
  JBool bool | JNum int | JStr string | JArr "json list" | JObj "(string \<times> json) list"

text \<open>A body is text, or the text \<open>JSON.stringify\<close> gives for a value (kept as the value).\<close>

datatype payload = Text string | JSON_stringify json

text \<open>
  A \<open>Request\<close> object. Header names are in the lower case the \<open>Headers\<close> object keeps them
  in. \<open>body\<close> is \<open>None\<close> for a request without a body; \<open>bodyUsed\<close> tells that the body was
  taken from the object.
\<close>

record request =
  url :: string
  request_method :: string
  headers :: "(string \<times> string) list"
  body :: "payload option"
  bodyUsed :: bool

record response =
  status :: nat
  response_headers :: "(string \<times> string) list"
  response_body :: payload

text \<open>\<open>fetch\<close>, \<open>cache.put\<close> and \<open>request.text()\<close> reject with a \<open>TypeError\<close>; the worker itself throws one \<open>Error\<close>.\<close>

datatype error = TypeError string | Error string

text \<open>\<open>response.ok\<close>: the status is in the range 200 to 299.\<close>

definition ok :: "response \<Rightarrow> bool" where
  "ok r = (200 \<le> status r \<and> status r \<le> 299)"

text \<open>
  \<open>new URL(request.url)\<close>, of which the worker reads \<open>pathname\<close> only. A request's url is
  absolute: the path starts after the authority and ends before the query or the fragment.
  Dot segments and percent-encoding are left as they are.
\<close>

record URL =
  pathname :: string

fun after_scheme :: "string \<Rightarrow> string" where
  "after_scheme [] = []"
| "after_scheme (c # cs) =
     (if prefix ''://'' (c # cs) then drop 3 (c # cs) else after_scheme cs)"

definition new_URL :: "string \<Rightarrow> URL" where
  "new_URL u =
     (let rest = (if sublist ''://'' u then after_scheme u else u);
          p = takeWhile (\<lambda>c. c \<noteq> CHR ''?'' \<and> c \<noteq> CHR ''#'')
                (dropWhile (\<lambda>c. c \<noteq> CHR ''/'' \<and> c \<noteq> CHR ''?'' \<and> c \<noteq> CHR ''#'') rest)
      in \<lparr>pathname = (if p = [] then ''/'' else p)\<rparr>)"

subsection \<open>Header values\<close>

text \<open>The value of a header, and the field names a response lists under \<open>Vary\<close>.\<close>

definition header :: "(string \<times> string) list \<Rightarrow> string \<Rightarrow> string option" where
  "header hs name = map_of hs name"

fun split_on :: "char \<Rightarrow> string \<Rightarrow> string list" where
  "split_on c [] = [[]]"
| "split_on c (x # xs) =
     (if x = c then [] # split_on c xs
      else (case split_on c xs of
              w # ws \<Rightarrow> (x # w) # ws
            | [] \<Rightarrow> [[x]]))"

definition trim :: "string \<Rightarrow> string" where
  "trim s =
     rev (dropWhile (\<lambda>c. c = CHR '' '' \<or> c = CHR 0x09)
       (rev (dropWhile (\<lambda>c. c = CHR '' '' \<or> c = CHR 0x09) s)))"

definition to_lower :: "char \<Rightarrow> char" where
  "to_lower c =
     (case map_of (zip ''ABCDEFGHIJKLMNOPQRSTUVWXYZ'' ''abcdefghijklmnopqrstuvwxyz'') c of
        Some l \<Rightarrow> l
      | None \<Rightarrow> c)"

definition vary_fields :: "response \<Rightarrow> string list" where
  "vary_fields r =
     filter (\<lambda>f. f \<noteq> [])
       (map (\<lambda>f. map to_lower (trim f))
          (concat (map (\<lambda>(name, v). split_on CHR '','' v)
             (filter (\<lambda>(name, v). name = ''vary'') (response_headers r)))))"

subsection \<open>The records of the IndexedDB stores and the notifications\<close>

text \<open>\<open>requestData\<close> of \<open>storeForBackgroundSync\<close>, with the key the store assigns.\<close>

record requestData =
  rd_url :: string
  rd_method :: string
  rd_headers :: "(string \<times> string) list"
  rd_body :: payload
  timestamp :: int
  rd_id :: nat

text \<open>
  A record of \<open>mood_data\<close>. \<open>date\<close> is the time value of \<open>new Date(mood.date)\<close>, in
  milliseconds since the epoch; \<open>mood_value\<close> is \<open>mood.value\<close>.
\<close>

record mood =
  date :: int
  mood_value :: int

text \<open>
  A notification as \<open>showNotification\<close> gets it: the title and the options. \<open>data_url\<close> is
  \<open>data.url\<close>, the one field of \<open>data\<close> the worker reads.
\<close>

record notification =
  title :: string
  notification_body :: string
  icon :: string
  badge :: "string option"
  tag :: string
  requireInteraction :: bool
  actions :: "(string \<times> string) list"
  data_url :: "string option"

text \<open>The object \<open>event.data.json()\<close> of a push message.\<close>

record push_data =
  push_title :: string
  push_body :: string
  push_tag :: "string option"
  urgent :: "bool option"
  push_actions :: "(string \<times> string) list option"
  push_url :: "string option"

subsection \<open>The state the worker acts on\<close>

text \<open>
  \<open>caches\<close> is the cache storage: the named caches in the order of their creation, each the
  list of its request and response pairs in the order they were stored. \<open>pending_requests\<close>,
  \<open>mood_data\<close> and \<open>session_progress\<close> are the object stores of MindChatDB, in key order;
  \<open>next_id\<close> is the key generator of \<open>pending_requests\<close>. \<open>localStorage\<close> is \<open>None\<close> where
  the global scope has no such object, as the scope of a service worker. \<open>fetched\<close> lists
  the requests sent to the network so far, \<open>notifications\<close> those shown and \<open>closed\<close> those
  closed, \<open>clients\<close> the urls of the open windows, \<open>sync_tags\<close> the tags registered for
  background sync.
\<close>

record sw_state =
  caches :: "(string \<times> (request \<times> response) list) list"
  pending_requests :: "requestData list"
  next_id :: nat
  mood_data :: "mood list"
  session_progress :: "json list"
  localStorage :: "(string \<rightharpoonup> string) option"
  fetched :: "request list"
  notifications :: "notification list"
  closed :: "notification list"
  clients :: "string list"
  focused :: "string option"
  sync_tags :: "string list"
  skip_waiting :: bool
  clients_claimed :: bool
  origin :: string

type_synonym network = "nat \<Rightarrow> request \<Rightarrow> error + response"

definition STATIC_CACHE :: string where "STATIC_CACHE = ''mindchat-static-v1''"
definition DYNAMIC_CACHE :: string where "DYNAMIC_CACHE = ''mindchat-dynamic-v1''"
definition AUDIO_CACHE :: string where "AUDIO_CACHE = ''mindchat-audio-v1''"

definition STATIC_ASSETS :: "string list" where
  "STATIC_ASSETS =
     [''/'', ''/index.html'', ''/manifest.json'',
      ''/icons/icon-192x192.png'', ''/icons/icon-512x512.png'']"

subsection \<open>Platform operations: the network\<close>

text \<open>
  \<open>fetch(request)\<close>: the request goes out, the network settles it. \<open>fetch\<close> takes the body
  of the request object it is given: \<open>sent\<close> is that object afterwards. \<open>request.text()\<close>
  rejects on an object whose body was taken, and gives the empty text when there is no body.
\<close>

definition fetch :: "network \<Rightarrow> request \<Rightarrow> sw_state \<Rightarrow> (error + response) \<times> sw_state" where
  "fetch net rq st = (net (length (fetched st)) rq, st\<lparr>fetched := fetched st @ [rq]\<rparr>)"

definition sent :: "request \<Rightarrow> request" where
  "sent rq = rq\<lparr>bodyUsed := (bodyUsed rq \<or> body rq \<noteq> None)\<rparr>"

definition request_text :: "request \<Rightarrow> error + payload" where
  "request_text rq =
     (if bodyUsed rq then Inl (TypeError ''body stream already read'')
      else Inr (case body rq of None \<Rightarrow> Text [] | Some b \<Rightarrow> b))"

text \<open>A url given as a path is resolved against the origin of the worker.\<close>

definition resolve :: "sw_state \<Rightarrow> string \<Rightarrow> string" where
  "resolve st u = (if prefix ''/'' u then origin st @ u else u)"

definition new_Request :: "sw_state \<Rightarrow> string \<Rightarrow> request" where
  "new_Request st u =
     \<lparr>url = resolve st u, request_method = ''GET'', headers = [], body = None, bodyUsed = False\<rparr>"

subsection \<open>Platform operations: the cache storage\<close>

text \<open>\<open>caches.keys()\<close>, \<open>caches.open(name)\<close> (which creates a missing cache), \<open>caches.delete(name)\<close>.\<close>

definition caches_keys :: "sw_state \<Rightarrow> string list" where
  "caches_keys st = map fst (caches st)"

definition caches_open :: "string \<Rightarrow> sw_state \<Rightarrow> sw_state" where
  "caches_open name st =
     (if name \<in> set (caches_keys st) then st
      else st\<lparr>caches := caches st @ [(name, [])]\<rparr>)"

definition caches_delete :: "string \<Rightarrow> sw_state \<Rightarrow> sw_state" where
  "caches_delete name st = st\<lparr>caches := filter (\<lambda>(n, c). n \<noteq> name) (caches st)\<rparr>"

text \<open>
  The pairs of the cache of a name (none when there is no such cache). A cache handle is
  identified with its name; a write to a cache that was deleted meanwhile reaches nothing
  the storage still lists.
\<close>

definition partition_of :: "string \<Rightarrow> sw_state \<Rightarrow> (request \<times> response) list" where
  "partition_of name st = (case map_of (caches st) name of None \<Rightarrow> [] | Some c \<Rightarrow> c)"

text \<open>
  When a request matches a stored pair, with the default options of \<open>cache.match\<close>: the
  request is a GET, the urls are equal up to their fragments, and for every field the stored
  response lists under \<open>Vary\<close> the two requests carry the same value.
\<close>

definition without_fragment :: "string \<Rightarrow> string" where
  "without_fragment u = takeWhile (\<lambda>c. c \<noteq> CHR ''#'') u"

definition request_matches_cached_item :: "request \<Rightarrow> request \<times> response \<Rightarrow> bool" where
  "request_matches_cached_item requestQuery item =
     (request_method requestQuery = ''GET'' \<and>
      without_fragment (url (fst item)) = without_fragment (url requestQuery) \<and>
      list_all (\<lambda>f. f \<noteq> ''*'' \<and>
                     header (headers (fst item)) f = header (headers requestQuery) f)
        (vary_fields (snd item)))"

text \<open>\<open>cache.match(request)\<close>: the response of the first stored pair the request matches.\<close>

definition cache_match :: "string \<Rightarrow> request \<Rightarrow> sw_state \<Rightarrow> response option" where
  "cache_match name rq st =
     map_option snd (find (request_matches_cached_item rq) (partition_of name st))"

text \<open>
  \<open>cache.put(request, response)\<close> rejects when the url of the request is not of http or
  https, when the request is not a GET, when the response is a partial one (status 206) and
  when its \<open>Vary\<close> lists \<open>*\<close>. Otherwise the pairs the request matches are removed and
  the new pair is added at the end (\<open>cache_store\<close>).
\<close>

definition put_refuses :: "request \<Rightarrow> response \<Rightarrow> bool" where
  "put_refuses rq r =
     (\<not> (prefix ''http://'' (url rq) \<or> prefix ''https://'' (url rq)) \<or>
      request_method rq \<noteq> ''GET'' \<or> status r = 206 \<or> ''*'' \<in> set (vary_fields r))"

definition cache_store :: "string \<Rightarrow> request \<Rightarrow> response \<Rightarrow> sw_state \<Rightarrow> sw_state" where
  "cache_store name rq r st =
     st\<lparr>caches :=
          map (\<lambda>(n, c).
                 if n = name
                 then (n, filter (\<lambda>item. \<not> request_matches_cached_item rq item) c @ [(rq, r)])
                 else (n, c))
            (caches st)\<rparr>"

definition cache_put :: "string \<Rightarrow> request \<Rightarrow> response \<Rightarrow> sw_state \<Rightarrow> error + sw_state" where
  "cache_put name rq r st =
     (if put_refuses rq r then Inl (TypeError ''Failed to execute put on Cache'')
      else Inr (cache_store name rq r st))"

text \<open>
  \<open>cache.addAll(urls)\<close> fetches every url and stores the responses only when every fetch
  resolved with a response that is ok, is not partial and does not vary on \<open>*\<close>; otherwise
  it rejects and stores nothing. \<open>cache.add(url)\<close> is \<open>cache.addAll([url])\<close>. The result
  tells whether the promise resolved.
\<close>

fun fetch_each :: "network \<Rightarrow> request list \<Rightarrow> sw_state \<Rightarrow> (error + response) list \<times> sw_state" where
  "fetch_each net [] st = ([], st)"
| "fetch_each net (rq # rqs) st =
     (case fetch net rq st of
        (outcome, st1) \<Rightarrow>
          (case fetch_each net rqs st1 of
             (outcomes, st2) \<Rightarrow> (outcome # outcomes, st2)))"

definition addable :: "error + response \<Rightarrow> bool" where
  "addable outcome =
     (case outcome of
        Inr r \<Rightarrow> ok r \<and> status r \<noteq> 206 \<and> ''*'' \<notin> set (vary_fields r)
      | Inl e \<Rightarrow> False)"

definition store_each ::
  "string \<Rightarrow> (request \<times> (error + response)) list \<Rightarrow> sw_state \<Rightarrow> sw_state" where
  "store_each name fetches st =
     fold (\<lambda>(rq, outcome) s.
             case outcome of Inr r \<Rightarrow> cache_store name rq r s | Inl e \<Rightarrow> s)
       fetches st"

definition cache_addAll :: "network \<Rightarrow> string \<Rightarrow> string list \<Rightarrow> sw_state \<Rightarrow> bool \<times> sw_state" where
  "cache_addAll net name urls st =
     (let requests = map (new_Request st) urls in
      case fetch_each net requests st of
        (outcomes, st1) \<Rightarrow>
          if list_all addable outcomes
          then (True, store_each name (zip requests outcomes) st1)
          else (False, st1))"

subsection \<open>The caching strategies\<close>

definition cacheFirstStrategy ::
  "network \<Rightarrow> request \<Rightarrow> string \<Rightarrow> sw_state \<Rightarrow> (error + response) \<times> sw_state" where
  "cacheFirstStrategy net request cacheName st =
     (let st1 = caches_open cacheName st in
      case cache_match cacheName request st1 of
        Some cachedResponse \<Rightarrow> (Inr cachedResponse, st1)
      | None \<Rightarrow>
          (case fetch net request st1 of
             (Inl e, st2) \<Rightarrow> (Inl e, st2)
           | (Inr networkResponse, st2) \<Rightarrow>
               (case cache_put cacheName request networkResponse st2 of
                  Inl e \<Rightarrow> (Inl e, st2)
                | Inr st3 \<Rightarrow> (Inr networkResponse, st3))))"

text \<open>
  In \<open>networkFirstStrategy\<close> the \<open>put\<close> is inside the \<open>try\<close>: the \<open>catch\<close> block runs on a
  rejected fetch and on a rejected put alike.
\<close>

definition networkFirst_catch ::
  "error \<Rightarrow> request \<Rightarrow> string \<Rightarrow> sw_state \<Rightarrow> (error + response) \<times> sw_state" where
  "networkFirst_catch error request cacheName st =
     (let st1 = caches_open cacheName st in
      case cache_match cacheName request st1 of
        Some cachedResponse \<Rightarrow> (Inr cachedResponse, st1)
      | None \<Rightarrow> (Inl error, st1))"

definition networkFirstStrategy ::
  "network \<Rightarrow> request \<Rightarrow> string \<Rightarrow> sw_state \<Rightarrow> (error + response) \<times> sw_state" where
  "networkFirstStrategy net request cacheName st =
     (case fetch net request st of
        (Inr networkResponse, st1) \<Rightarrow>
          (let st2 = caches_open cacheName st1 in
           case cache_put cacheName request networkResponse st2 of
             Inr st3 \<Rightarrow> (Inr networkResponse, st3)
           | Inl error \<Rightarrow> networkFirst_catch error request cacheName st2)
      | (Inl error, st1) \<Rightarrow> networkFirst_catch error request cacheName st1)"

text \<open>
  Stale-while-revalidate returns while its fetch may still be in flight. The model gives
  the state at the moment of the return and, when the fetch was not awaited, the job that is
  still to run: the cache to write to, the request, and the way the fetch will settle.
  \<open>settle\<close> is the \<open>then\<close>/\<open>catch\<close> continuation of that fetch: it gives the value of
  \<open>networkResponsePromise\<close>, which is \<open>null\<close> (\<open>None\<close>) after a rejected fetch and after a
  rejected put, and the state.
\<close>

record revalidation =
  job_cache :: string
  job_request :: request
  job_outcome :: "error + response"

definition settle :: "revalidation \<Rightarrow> sw_state \<Rightarrow> response option \<times> sw_state" where
  "settle job st =
     (case job_outcome job of
        Inr networkResponse \<Rightarrow>
          (case cache_put (job_cache job) (job_request job) networkResponse st of
             Inr st1 \<Rightarrow> (Some networkResponse, st1)
           | Inl e \<Rightarrow> (None, st))
      | Inl e \<Rightarrow> (None, st))"

definition staleWhileRevalidateStrategy ::
  "network \<Rightarrow> request \<Rightarrow> string \<Rightarrow> sw_state \<Rightarrow>
     (error + response) \<times> sw_state \<times> revalidation option" where
  "staleWhileRevalidateStrategy net request cacheName st =
     (let st1 = caches_open cacheName st;
          cachedResponse = cache_match cacheName request st1;
          (outcome, st2) = fetch net request st1;
          job = \<lparr>job_cache = cacheName, job_request = request, job_outcome = outcome\<rparr>
      in case cachedResponse of
           Some r \<Rightarrow> (Inr r, st2, Some job)
         | None \<Rightarrow>
             (case settle job st2 of
                (Some networkResponse, st3) \<Rightarrow> (Inr networkResponse, st3, None)
              | (None, st3) \<Rightarrow>
                  (Inl (Error ''No cached response and network unavailable''), st3, None)))"

text \<open>The state once the fetch a call left in flight, if any, has settled.\<close>

definition settled :: "sw_state \<times> revalidation option \<Rightarrow> sw_state" where
  "settled p = (case snd p of None \<Rightarrow> fst p | Some job \<Rightarrow> snd (settle job (fst p)))"

subsection \<open>The fetch handlers\<close>

definition accepts :: "string \<Rightarrow> request \<Rightarrow> bool" where
  "accepts what request =
     (case header (headers request) ''accept'' of None \<Rightarrow> False | Some v \<Rightarrow> sublist what v)"

definition placeholder_svg :: string where
  \<open>placeholder_svg =
     ''<svg xmlns="http://www.w3.org/2000/svg" width="200" height="200" viewBox="0 0 200 200">'' @
     [CHR 0x0A] @ ''      <rect width="200" height="200" fill="#f0f0f0"/>'' @
     [CHR 0x0A] @ ''      <text x="100" y="100" text-anchor="middle" fill="#666" font-size="14">Offline</text>'' @
     [CHR 0x0A] @ ''    </svg>''\<close>

text \<open>
  A \<open>Response\<close> made from a text without a content type of its own gets
  \<open>text/plain;charset=UTF-8\<close>, as the generic answer below.
\<close>

definition getFallbackResponse :: "request \<Rightarrow> sw_state \<Rightarrow> response \<times> sw_state" where
  "getFallbackResponse request st =
     (let url_obj = new_URL (url request) in
      if accepts ''text/html'' request then
        (let st1 = caches_open STATIC_CACHE st in
         case cache_match STATIC_CACHE (new_Request st1 ''/'') st1 of
           Some shell \<Rightarrow> (shell, st1)
         | None \<Rightarrow>
             (\<lparr>status = 503, response_headers = [(''content-type'', ''text/plain'')],
               response_body = Text ''Offline - Please check your connection''\<rparr>, st1))
      else if prefix ''/api/'' (pathname url_obj) then
        (\<lparr>status = 503, response_headers = [(''content-type'', ''application/json'')],
          response_body = JSON_stringify (JObj
            [(''error'', JStr ''Offline''),
             (''message'', JStr ''This feature requires internet connection''),
             (''offline'', JBool True)])\<rparr>, st)
      else if accepts ''image/'' request then
        (\<lparr>status = 200, response_headers = [(''content-type'', ''image/svg+xml'')],
          response_body = Text placeholder_svg\<rparr>, st)
      else
        (\<lparr>status = 503, response_headers = [(''content-type'', ''text/plain;charset=UTF-8'')],
          response_body = Text ''Resource unavailable offline''\<rparr>, st))"

text \<open>
  \<open>handleGetRequest\<close>: the first test that holds picks the strategy; whatever the strategy
  throws is caught and answered by the fallback.
\<close>

definition awaited ::
  "(error + response) \<times> sw_state \<Rightarrow> (error + response) \<times> sw_state \<times> revalidation option" where
  "awaited r = (fst r, snd r, None)"

definition catch_fallback ::
  "request \<Rightarrow> (error + response) \<times> sw_state \<times> revalidation option \<Rightarrow>
     response \<times> sw_state \<times> revalidation option" where
  "catch_fallback request r =
     (case r of
        (Inr response, st, job) \<Rightarrow> (response, st, job)
      | (Inl error, st, job) \<Rightarrow>
          (let (fallback, st1) = getFallbackResponse request st in (fallback, st1, job)))"

definition handleGetRequest ::
  "network \<Rightarrow> request \<Rightarrow> URL \<Rightarrow> sw_state \<Rightarrow> response \<times> sw_state \<times> revalidation option" where
  "handleGetRequest net request url_obj st =
     catch_fallback request
       (if list_ex (\<lambda>asset. suffix asset (pathname url_obj)) STATIC_ASSETS then
          awaited (cacheFirstStrategy net request STATIC_CACHE st)
        else if sublist ''/audio/'' (pathname url_obj) then
          awaited (cacheFirstStrategy net request AUDIO_CACHE st)
        else if prefix ''/api/'' (pathname url_obj) then
          awaited (networkFirstStrategy net request DYNAMIC_CACHE st)
        else
          staleWhileRevalidateStrategy net request DYNAMIC_CACHE st)"

text \<open>
  \<open>storeForBackgroundSync\<close>: \<open>request.text()\<close> may reject, and then the \<open>catch\<close> of the
  function leaves the store as it is. The store is created with \<open>autoIncrement\<close>, so \<open>add\<close>
  gives the record the next key. \<open>now\<close> is \<open>Date.now()\<close>.
\<close>

definition storeForBackgroundSync :: "int \<Rightarrow> request \<Rightarrow> sw_state \<Rightarrow> sw_state" where
  "storeForBackgroundSync now request st =
     (case request_text request of
        Inl error \<Rightarrow> st
      | Inr text \<Rightarrow>
          (let requestData =
                 \<lparr>rd_url = url request, rd_method = request_method request,
                  rd_headers = headers request, rd_body = text, timestamp = now,
                  rd_id = next_id st\<rparr>
           in st\<lparr>pending_requests := pending_requests st @ [requestData],
                 next_id := Suc (next_id st)\<rparr>))"

definition queued_response :: response where
  "queued_response =
     \<lparr>status = 200, response_headers = [(''content-type'', ''application/json'')],
      response_body = JSON_stringify (JObj
        [(''success'', JBool True), (''offline'', JBool True),
         (''message'', JStr ''Data queued for sync when online'')])\<rparr>"

text \<open>
  \<open>handlePostRequest\<close> hands \<open>storeForBackgroundSync\<close> the request object it has already
  given to \<open>fetch\<close>.
\<close>

definition handlePostRequest ::
  "network \<Rightarrow> int \<Rightarrow> request \<Rightarrow> URL \<Rightarrow> sw_state \<Rightarrow> (error + response) \<times> sw_state" where
  "handlePostRequest net now request url_obj st =
     (case fetch net request st of
        (Inr response, st1) \<Rightarrow> (Inr response, st1)
      | (Inl error, st1) \<Rightarrow>
          if prefix ''/api/'' (pathname url_obj) then
            (Inr queued_response, storeForBackgroundSync now (sent request) st1)
          else (Inl error, st1))"

text \<open>
  The \<open>fetch\<close> listener. It answers GET and POST; for any other method it never calls
  \<open>respondWith\<close>, the worker does nothing and the browser sends the request on its own.
\<close>

datatype fetch_event_result =
    RespondWith "error + response" sw_state "revalidation option"
  | NotIntercepted

definition on_fetch :: "network \<Rightarrow> int \<Rightarrow> request \<Rightarrow> sw_state \<Rightarrow> fetch_event_result" where
  "on_fetch net now request st =
     (let url_obj = new_URL (url request) in
      if request_method request = ''GET'' then
        (case handleGetRequest net request url_obj st of
           (response, st1, job) \<Rightarrow> RespondWith (Inr response) st1 job)
      else if request_method request = ''POST'' then
        (case handlePostRequest net now request url_obj st of
           (r, st1) \<Rightarrow> RespondWith r st1 None)
      else NotIntercepted)"

subsection \<open>Installation and activation\<close>

text \<open>
  The two branches of the \<open>install\<close> listener open their caches and issue their fetches in
  the order they are written; \<open>skipWaiting\<close> is called when both resolved.
\<close>

definition install :: "network \<Rightarrow> sw_state \<Rightarrow> sw_state" where
  "install net st =
     (let st1 = caches_open AUDIO_CACHE (caches_open STATIC_CACHE st) in
      case cache_addAll net STATIC_CACHE STATIC_ASSETS st1 of
        (static_done, st2) \<Rightarrow>
          (case cache_addAll net AUDIO_CACHE [''/audio/breathing-basics-64k.mp3''] st2 of
             (audio_done, st3) \<Rightarrow>
               if static_done \<and> audio_done then st3\<lparr>skip_waiting := True\<rparr> else st3))"

definition activate :: "sw_state \<Rightarrow> sw_state" where
  "activate st =
     (fold (\<lambda>cacheName s.
              if cacheName \<noteq> STATIC_CACHE \<and> cacheName \<noteq> DYNAMIC_CACHE \<and> cacheName \<noteq> AUDIO_CACHE
              then caches_delete cacheName s else s)
        (caches_keys st) st)\<lparr>clients_claimed := True\<rparr>"

subsection \<open>Background sync\<close>

definition store_delete :: "nat \<Rightarrow> sw_state \<Rightarrow> sw_state" where
  "store_delete key st =
     st\<lparr>pending_requests := filter (\<lambda>e. rd_id e \<noteq> key) (pending_requests st)\<rparr>"

definition replayed :: "requestData \<Rightarrow> request" where
  "replayed requestData =
     \<lparr>url = rd_url requestData, request_method = rd_method requestData,
      headers = rd_headers requestData, body = Some (rd_body requestData), bodyUsed = False\<rparr>"

text \<open>The \<open>for\<close> loop of \<open>syncPendingRequests\<close> over the records \<open>getAll\<close> returned.\<close>

fun replay :: "network \<Rightarrow> requestData list \<Rightarrow> sw_state \<Rightarrow> sw_state" where
  "replay net [] st = st"
| "replay net (requestData # requests) st =
     (case fetch net (replayed requestData) st of
        (Inr response, st1) \<Rightarrow>
          replay net requests (if ok response then store_delete (rd_id requestData) st1 else st1)
      | (Inl error, st1) \<Rightarrow> replay net requests st1)"

definition syncPendingRequests :: "network \<Rightarrow> sw_state \<Rightarrow> sw_state" where
  "syncPendingRequests net st = replay net (pending_requests st) st"

text \<open>
  The two batch syncs send a whole store in one POST and clear the store when the answer is
  ok. A mood record is serialised with its date as the time value.
\<close>

definition batch_request :: "sw_state \<Rightarrow> string \<Rightarrow> json list \<Rightarrow> request" where
  "batch_request st u records =
     \<lparr>url = resolve st u, request_method = ''POST'',
      headers = [(''content-type'', ''application/json'')],
      body = Some (JSON_stringify (JArr records)), bodyUsed = False\<rparr>"

definition mood_json :: "mood \<Rightarrow> json" where
  "mood_json m = JObj [(''date'', JNum (date m)), (''value'', JNum (mood_value m))]"

definition syncMoodData :: "network \<Rightarrow> sw_state \<Rightarrow> sw_state" where
  "syncMoodData net st =
     (let moodData = mood_data st in
      if length moodData > 0 then
        (case fetch net (batch_request st ''/api/sync-mood'' (map mood_json moodData)) st of
           (Inr response, st1) \<Rightarrow> if ok response then st1\<lparr>mood_data := []\<rparr> else st1
         | (Inl error, st1) \<Rightarrow> st1)
      else st)"

definition syncSessionProgress :: "network \<Rightarrow> sw_state \<Rightarrow> sw_state" where
  "syncSessionProgress net st =
     (let progressData = session_progress st in
      if length progressData > 0 then
        (case fetch net (batch_request st ''/api/sync-progress'' progressData) st of
           (Inr response, st1) \<Rightarrow> if ok response then st1\<lparr>session_progress := []\<rparr> else st1
         | (Inl error, st1) \<Rightarrow> st1)
      else st)"

definition on_sync :: "network \<Rightarrow> string \<Rightarrow> sw_state \<Rightarrow> sw_state" where
  "on_sync net event_tag st =
     (if event_tag = ''sync-pending-requests'' then syncPendingRequests net st
      else if event_tag = ''sync-mood-data'' then syncMoodData net st
      else if event_tag = ''sync-session-progress'' then syncSessionProgress net st
      else st)"

subsection \<open>Notifications\<close>

definition on_push :: "push_data option \<Rightarrow> sw_state \<Rightarrow> sw_state" where
  "on_push event_data st =
     (case event_data of
        None \<Rightarrow> st
      | Some d \<Rightarrow>
          st\<lparr>notifications := notifications st @
               [\<lparr>title = push_title d,
                 notification_body = push_body d,
                 icon = ''/icons/icon-192x192.png'',
                 badge = Some ''/icons/badge-72x72.png'',
                 tag = (case push_tag d of
                          None \<Rightarrow> ''mindchat-notification''
                        | Some t \<Rightarrow> if t = [] then ''mindchat-notification'' else t),
                 requireInteraction = (case urgent d of None \<Rightarrow> False | Some b \<Rightarrow> b),
                 actions = (case push_actions d of None \<Rightarrow> [] | Some a \<Rightarrow> a),
                 data_url = push_url d\<rparr>]\<rparr>)"

text \<open>
  A click closes the notification, then focuses the window whose url is the very string of
  \<open>data.url\<close> (or \<open>/\<close>), or opens one.
\<close>

definition on_notificationclick :: "notification \<Rightarrow> sw_state \<Rightarrow> sw_state" where
  "on_notificationclick n st =
     (let st1 = st\<lparr>closed := closed st @ [n]\<rparr>;
          urlToOpen = (case data_url n of
                         None \<Rightarrow> ''/''
                       | Some u \<Rightarrow> if u = [] then ''/'' else u)
      in if urlToOpen \<in> set (clients st1) then st1\<lparr>focused := Some urlToOpen\<rparr>
         else st1\<lparr>clients := clients st1 @ [resolve st1 urlToOpen],
                  focused := Some (resolve st1 urlToOpen)\<rparr>)"

definition support_notification :: notification where
  "support_notification =
     \<lparr>title = ''MindChat Support'',
      notification_body =
        ''We noticed you might be going through a tough time. Remember, support is available.'',
      icon = ''/icons/icon-192x192.png'',
      badge = None,
      tag = ''crisis-support'',
      requireInteraction = True,
      actions = [(''crisis-support'', ''Get Support''), (''dismiss'', ''Not Now'')],
      data_url = Some ''/?section=crisis''\<rparr>"

definition checkCrisisSupport :: "int \<Rightarrow> sw_state \<Rightarrow> sw_state" where
  "checkCrisisSupport now st =
     (let recentMoods = mood_data st;
          threeDaysAgo = now - 3 * 24 * 60 * 60 * 1000;
          recentLowMoods =
            filter (\<lambda>mood. date mood \<ge> threeDaysAgo \<and> mood_value mood \<le> 2) recentMoods
      in if length recentLowMoods \<ge> 3
         then st\<lparr>notifications := notifications st @ [support_notification]\<rparr>
         else st)"

text \<open>
  \<open>sendMoodReminder\<close> reads \<open>localStorage\<close>; where the scope has none the reference throws
  and the \<open>catch\<close> of the function ends it. \<open>today\<close> is the date part of
  \<open>new Date().toISOString()\<close>.
\<close>

definition reminder_notification :: notification where
  "reminder_notification =
     \<lparr>title = ''MindChat Reminder'',
      notification_body =
        ''How are you feeling today? Take a moment to check in with yourself.'',
      icon = ''/icons/icon-192x192.png'',
      badge = None,
      tag = ''mood-reminder'',
      requireInteraction = False,
      actions = [(''mood-checkin'', ''Check In'')],
      data_url = Some ''/?section=home''\<rparr>"

definition sendMoodReminder :: "string \<Rightarrow> sw_state \<Rightarrow> sw_state" where
  "sendMoodReminder today st =
     (case localStorage st of
        None \<Rightarrow> st
      | Some storage \<Rightarrow>
          (case storage (''mood_'' @ today) of
             None \<Rightarrow> st\<lparr>notifications := notifications st @ [reminder_notification]\<rparr>
           | Some moodToday \<Rightarrow>
               if moodToday = []
               then st\<lparr>notifications := notifications st @ [reminder_notification]\<rparr>
               else st))"

definition on_periodicsync :: "int \<Rightarrow> string \<Rightarrow> string \<Rightarrow> sw_state \<Rightarrow> sw_state" where
  "on_periodicsync now today event_tag st =
     (if event_tag = ''crisis-check'' then checkCrisisSupport now st
      else if event_tag = ''mood-reminder'' then sendMoodReminder today st
      else st)"

subsection \<open>The messages of the page\<close>

definition cacheAudioFile :: "network \<Rightarrow> string \<Rightarrow> sw_state \<Rightarrow> sw_state" where
  "cacheAudioFile net u st = snd (cache_addAll net AUDIO_CACHE [u] (caches_open AUDIO_CACHE st))"

definition clearAllCaches :: "sw_state \<Rightarrow> sw_state" where
  "clearAllCaches st = fold caches_delete (caches_keys st) st"

definition triggerSync :: "string \<Rightarrow> sw_state \<Rightarrow> sw_state" where
  "triggerSync t st = st\<lparr>sync_tags := sync_tags st @ [t]\<rparr>"

text \<open>\<open>event.data\<close> of a message: its \<open>type\<close>, and the \<open>url\<close> and \<open>tag\<close> two commands read.\<close>

record message =
  message_type :: string
  message_url :: string
  message_tag :: string

definition on_message :: "network \<Rightarrow> message \<Rightarrow> sw_state \<Rightarrow> sw_state" where
  "on_message net m st =
     (if message_type m = [] then st
      else if message_type m = ''SKIP_WAITING'' then st\<lparr>skip_waiting := True\<rparr>
      else if message_type m = ''CACHE_AUDIO'' then cacheAudioFile net (message_url m) st
      else if message_type m = ''CLEAR_CACHE'' then clearAllCaches st
      else if message_type m = ''SYNC_NOW'' then triggerSync (message_tag m) st
      else st)"

subsection \<open>Concrete states, requests and networks\<close>

text \<open>The values below are the inputs at which the theorems are instantiated.\<close>

definition initial_state :: sw_state where
  "initial_state =
     \<lparr>caches = [], pending_requests = [], next_id = 1, mood_data = [], session_progress = [],
      localStorage = None, fetched = [], notifications = [], closed = [], clients = [],
      focused = None, sync_tags = [], skip_waiting = False, clients_claimed = False,
      origin = ''https://mindchat.app''\<rparr>"

definition get_request :: "string \<Rightarrow> request" where
  "get_request u =
     \<lparr>url = u, request_method = ''GET'', headers = [], body = None, bodyUsed = False\<rparr>"


definition page :: response where
  "page = \<lparr>status = 200, response_headers = [], response_body = Text ''fresh''\<rparr>"

definition old_page :: response where
  "old_page = \<lparr>status = 200, response_headers = [], response_body = Text ''stale''\<rparr>"

definition server_error :: response where
  "server_error =
     \<lparr>status = 500, response_headers = [], response_body = Text ''Internal Server Error''\<rparr>"

definition partial_content :: response where
  "partial_content =
     \<lparr>status = 206,
      response_headers = [(''content-range'', ''bytes 0-99/1000''), (''content-type'', ''audio/mpeg'')],
      response_body = Text ''first bytes''\<rparr>"

definition online :: "response \<Rightarrow> network" where
  "online r n rq = Inr r"

definition offline :: network where
  "offline n rq = Inl (TypeError ''Failed to fetch'')"

definition holding :: "string \<Rightarrow> request \<Rightarrow> response \<Rightarrow> sw_state" where
  "holding cacheName request r =
     cache_store cacheName request r (caches_open cacheName initial_state)"

definition first_entry :: requestData where
  "first_entry =
     \<lparr>rd_url = ''https://mindchat.app/api/peer/join'', rd_method = ''POST'',
      rd_headers = [(''content-type'', ''application/json'')], rd_body = Text [],
      timestamp = 1000, rd_id = 1\<rparr>"

definition second_entry :: requestData where
  "second_entry =
     \<lparr>rd_url = ''https://mindchat.app/api/peer/leave'', rd_method = ''POST'',
      rd_headers = [(''content-type'', ''application/json'')], rd_body = Text [],
      timestamp = 2000, rd_id = 2\<rparr>"

definition two_pending :: sw_state where
  "two_pending = initial_state\<lparr>pending_requests := [first_entry, second_entry], next_id := 3\<rparr>"

definition fails_then_succeeds :: network where
  "fails_then_succeeds n rq = (if n = 0 then Inl (TypeError ''Failed to fetch'') else Inr page)"

definition before_activation :: sw_state where
  "before_activation =
     initial_state\<lparr>caches :=
       [(''mindchat-static-v0'', []), (''mindchat-dynamic-v0'', []), (STATIC_CACHE, [])]\<rparr>"

definition in_use :: sw_state where
  "in_use =
     initial_state\<lparr>caches := [(STATIC_CACHE, []), (DYNAMIC_CACHE, [])],
                   pending_requests := [first_entry], next_id := 2\<rparr>"

text \<open>Milliseconds in a day, and the time value of the date-only string of a day.\<close>

definition day :: int where
  "day = 24 * 60 * 60 * 1000"

definition midnight :: "int \<Rightarrow> int" where
  "midnight d = d * day"

definition noon_of_day_ten :: int where
  "noon_of_day_ten = midnight 10 + 12 * 60 * 60 * 1000"

definition clear_cache :: message where
  "clear_cache = \<lparr>message_type = ''CLEAR_CACHE'', message_url = [], message_tag = []\<rparr>"

definition sync_now :: message where
  "sync_now =
     \<lparr>message_type = ''SYNC_NOW'', message_url = [], message_tag = ''sync-pending-requests''\<rparr>"

subsection \<open>Notions the theorems are stated with\<close>

text \<open>A replayed request succeeded: its fetch resolved with an ok response.\<close>

definition succeeded :: "error + response \<Rightarrow> bool" where
  "succeeded outcome = (case outcome of Inr response \<Rightarrow> ok response | Inl e \<Rightarrow> False)"

text \<open>
  The cache partitions are retained from one state to another: every partition is still
  there, and every url a partition held a response for is still one it holds a response
  for. This speaks of \<open>caches\<close> only; the object stores are not partitions, and their
  records are removed by the sync handlers once they were sent.
\<close>

definition stored_urls :: "string \<Rightarrow> sw_state \<Rightarrow> string set" where
  "stored_urls name st = (\<lambda>item. without_fragment (url (fst item))) ` set (partition_of name st)"

definition partitions_retained :: "sw_state \<Rightarrow> sw_state \<Rightarrow> bool" where
  "partitions_retained st st' =
     (set (caches_keys st) \<subseteq> set (caches_keys st') \<and>
      (\<forall>n. stored_urls n st \<subseteq> stored_urls n st'))"

text \<open>The keys of the pending requests: no key twice, every key below the key generator.\<close>

definition well_keyed :: "sw_state \<Rightarrow> bool" where
  "well_keyed st =
     (distinct (map rd_id (pending_requests st)) \<and>
      list_all (\<lambda>e. rd_id e < next_id st) (pending_requests st))"

section \<open>Properties of the platform operations and of the strategies\<close>

lemma map_of_map_upd:
  "map_of (map (\<lambda>(n, c). if n = name then (n, g c) else (n, c)) xs) n' =
     (if n' = name then map_option g (map_of xs n') else map_of xs n')"
  by (induction xs) auto

lemma map_of_Some_fst: "map_of xs n = Some c \<Longrightarrow> n \<in> fst ` set xs"
  by (induction xs) (auto split: if_splits)

lemma caches_open_existing: "name \<in> set (caches_keys st) \<Longrightarrow> caches_open name st = st"
  by (simp add: caches_open_def)

lemma partition_of_open: "partition_of n (caches_open name st) = partition_of n st"
  by (auto simp: partition_of_def caches_open_def caches_keys_def map_of_eq_None_iff
        split: option.splits if_splits dest: map_of_Some_fst)

lemma cache_match_open: "cache_match n rq (caches_open name st) = cache_match n rq st"
  by (simp add: cache_match_def partition_of_open)

lemma cache_match_Some_keys: "cache_match name rq st = Some r \<Longrightarrow> name \<in> set (caches_keys st)"
  by (auto simp: cache_match_def partition_of_def caches_keys_def
        split: option.splits dest: map_of_Some_fst)

lemma keys_open: "name \<in> set (caches_keys (caches_open name st))"
  by (simp add: caches_open_def caches_keys_def)

lemma caches_keys_open:
  "caches_keys (caches_open n st) =
     (if n \<in> set (caches_keys st) then caches_keys st else caches_keys st @ [n])"
  by (simp add: caches_open_def caches_keys_def)

lemma caches_keys_store [simp]: "caches_keys (cache_store n rq r st) = caches_keys st"
  by (simp add: cache_store_def caches_keys_def comp_def case_prod_unfold)

lemma partition_of_store:
  "partition_of n (cache_store name rq r st) =
     (if n = name \<and> name \<in> set (caches_keys st)
      then filter (\<lambda>item. \<not> request_matches_cached_item rq item) (partition_of name st) @ [(rq, r)]
      else partition_of n st)"
  by (auto simp: partition_of_def cache_store_def caches_keys_def map_of_map_upd map_of_eq_None_iff
        split: option.splits dest: map_of_Some_fst)

lemma fetch_eq: "fetch net rq st = (net (length (fetched st)) rq, st\<lparr>fetched := fetched st @ [rq]\<rparr>)"
  by (simp add: fetch_def)

lemma partition_of_fetched_upd [simp]: "partition_of n (st\<lparr>fetched := f\<rparr>) = partition_of n st"
  by (simp add: partition_of_def)

lemma cache_match_fetched_upd [simp]: "cache_match n rq (st\<lparr>fetched := f\<rparr>) = cache_match n rq st"
  by (simp add: cache_match_def)

lemma caches_keys_fetched_upd [simp]: "caches_keys (st\<lparr>fetched := f\<rparr>) = caches_keys st"
  by (simp add: caches_keys_def)

lemma fetched_store [simp]: "fetched (cache_store n rq r st) = fetched st"
  by (simp add: cache_store_def)

lemma fetched_open [simp]: "fetched (caches_open n st) = fetched st"
  by (simp add: caches_open_def)

lemma caches_open_fetched_upd:
  "caches_open n (st\<lparr>fetched := f\<rparr>) = (caches_open n st)\<lparr>fetched := f\<rparr>"
  by (simp add: caches_open_def)

lemma matches_itself:
  "\<not> put_refuses rq r \<Longrightarrow> request_matches_cached_item rq (rq, r)"
  by (auto simp: put_refuses_def request_matches_cached_item_def list_all_iff)

lemma find_filter_not: "find P (filter (\<lambda>x. \<not> P x) xs) = None"
  by (induction xs) auto

lemma find_append: "find P (xs @ ys) = (case find P xs of None \<Rightarrow> find P ys | Some x \<Rightarrow> Some x)"
  by (induction xs) auto

lemma find_None_filter: "find P xs = None \<Longrightarrow> filter (\<lambda>x. \<not> P x) xs = xs"
  by (induction xs) (auto split: if_splits)

lemma cache_match_store_same:
  assumes "name \<in> set (caches_keys st)" and "\<not> put_refuses rq r"
  shows "cache_match name rq (cache_store name rq r st) = Some r"
  using assms matches_itself[OF assms(2)]
  by (simp add: cache_match_def partition_of_store find_append find_filter_not)

lemma partition_of_store_miss:
  assumes "name \<in> set (caches_keys st)" and "cache_match name rq st = None"
  shows "partition_of name (cache_store name rq r st) = partition_of name st @ [(rq, r)]"
  using assms by (simp add: cache_match_def partition_of_store find_None_filter)

lemma cache_put_refused: "put_refuses rq r \<Longrightarrow> cache_put name rq r st = Inl (TypeError ''Failed to execute put on Cache'')"
  by (simp add: cache_put_def)

lemma cache_put_accepted: "\<not> put_refuses rq r \<Longrightarrow> cache_put name rq r st = Inr (cache_store name rq r st)"
  by (simp add: cache_put_def)

lemma cacheFirst_hit:
  assumes "cache_match cacheName request st = Some snapshot"
  shows "cacheFirstStrategy net request cacheName st = (Inr snapshot, st)"
  using assms cache_match_Some_keys[OF assms]
  by (simp add: cacheFirstStrategy_def caches_open_existing)


lemma cacheFirst_miss_stored:
  assumes "cache_match cacheName request st = None"
      and "net (length (fetched st)) request = Inr r"
      and "\<not> put_refuses request r"
  shows "fst (cacheFirstStrategy net request cacheName st) = Inr r"
    and "cache_match cacheName request (snd (cacheFirstStrategy net request cacheName st)) = Some r"
    and "partition_of cacheName (snd (cacheFirstStrategy net request cacheName st)) =
           partition_of cacheName st @ [(request, r)]"
  using assms
  by (simp_all add: cacheFirstStrategy_def Let_def cache_match_open fetch_eq cache_put_accepted
        cache_match_store_same keys_open partition_of_store_miss partition_of_open)


lemma cacheFirst_unchanged:
  assumes "net (length (fetched st)) request = Inl e \<or>
           (net (length (fetched st)) request = Inr r \<and> put_refuses request r)"
  shows "partition_of n (snd (cacheFirstStrategy net request cacheName st)) = partition_of n st"
  using assms
  by (auto simp: cacheFirstStrategy_def fetch_eq Let_def partition_of_open cache_put_refused
        split: option.splits)

lemma networkFirst_fetched:
  "fetched (snd (networkFirstStrategy net request cacheName st)) = fetched st @ [request]"
  by (auto simp: networkFirstStrategy_def networkFirst_catch_def fetch_eq Let_def cache_put_def
        split: sum.splits option.splits)

lemma networkFirst_stored:
  assumes "net (length (fetched st)) request = Inr r" and "\<not> put_refuses request r"
  shows "fst (networkFirstStrategy net request cacheName st) = Inr r"
    and "cache_match cacheName request (snd (networkFirstStrategy net request cacheName st)) = Some r"
    and "partition_of cacheName (snd (networkFirstStrategy net request cacheName st)) =
           filter (\<lambda>item. \<not> request_matches_cached_item request item) (partition_of cacheName st)
           @ [(request, r)]"
  using assms
  by (simp_all add: networkFirstStrategy_def fetch_eq Let_def cache_put_accepted
        cache_match_store_same keys_open partition_of_store partition_of_open)

lemma networkFirst_catch_hit:
  assumes "cache_match cacheName request st = Some snapshot"
  shows "networkFirst_catch e request cacheName st = (Inr snapshot, st)"
  using assms cache_match_Some_keys[OF assms]
  by (simp add: networkFirst_catch_def caches_open_existing)

lemma networkFirst_catch_miss:
  assumes "cache_match cacheName request st = None"
  shows "fst (networkFirst_catch e request cacheName st) = Inl e"
    and "partition_of n (snd (networkFirst_catch e request cacheName st)) = partition_of n st"
  using assms
  by (simp_all add: networkFirst_catch_def Let_def cache_match_open partition_of_open)

lemma networkFirst_catch_partition:
  "partition_of n (snd (networkFirst_catch e request cacheName st)) = partition_of n st"
  by (simp add: networkFirst_catch_def Let_def partition_of_open split: option.splits)

lemma networkFirst_fallback:
  assumes "net (length (fetched st)) request = Inl e"
      and "cache_match cacheName request st = Some snapshot"
  shows "networkFirstStrategy net request cacheName st =
           (Inr snapshot, st\<lparr>fetched := fetched st @ [request]\<rparr>)"
  using assms
  by (simp add: networkFirstStrategy_def fetch_eq networkFirst_catch_hit)

lemma networkFirst_failure:
  assumes "net (length (fetched st)) request = Inl e"
      and "cache_match cacheName request st = None"
  shows "fst (networkFirstStrategy net request cacheName st) = Inl e"
    and "partition_of n (snd (networkFirstStrategy net request cacheName st)) = partition_of n st"
  using assms
  by (simp_all add: networkFirstStrategy_def fetch_eq networkFirst_catch_miss)

lemma networkFirst_refused_hit:
  assumes "net (length (fetched st)) request = Inr r" and "put_refuses request r"
      and "cache_match cacheName request st = Some snapshot"
  shows "networkFirstStrategy net request cacheName st =
           (Inr snapshot, st\<lparr>fetched := fetched st @ [request]\<rparr>)"
proof -
  have present: "cacheName \<in> set (caches_keys (st\<lparr>fetched := fetched st @ [request]\<rparr>))"
    using cache_match_Some_keys[OF assms(3)] by simp
  show ?thesis
    using assms
    by (simp add: networkFirstStrategy_def fetch_eq Let_def cache_put_refused
          caches_open_existing[OF present] networkFirst_catch_hit)
qed

lemma networkFirst_unchanged:
  assumes "net (length (fetched st)) request = Inl e \<or>
           (net (length (fetched st)) request = Inr r \<and> put_refuses request r)"
  shows "partition_of n (snd (networkFirstStrategy net request cacheName st)) = partition_of n st"
  using assms
  by (auto simp: networkFirstStrategy_def fetch_eq Let_def cache_put_refused
        networkFirst_catch_partition partition_of_open)

lemma swr_hit:
  assumes "cache_match cacheName request st = Some snapshot"
  shows "staleWhileRevalidateStrategy net request cacheName st =
           (Inr snapshot, st\<lparr>fetched := fetched st @ [request]\<rparr>,
            Some \<lparr>job_cache = cacheName, job_request = request,
                  job_outcome = net (length (fetched st)) request\<rparr>)"
  using assms cache_match_Some_keys[OF assms]
  by (simp add: staleWhileRevalidateStrategy_def fetch_eq Let_def caches_open_existing)

lemma settle_stored:
  assumes "job_outcome job = Inr r" and "\<not> put_refuses (job_request job) r"
      and "job_cache job \<in> set (caches_keys st)"
  shows "fst (settle job st) = Some r"
    and "cache_match (job_cache job) (job_request job) (snd (settle job st)) = Some r"
    and "partition_of (job_cache job) (snd (settle job st)) =
           filter (\<lambda>item. \<not> request_matches_cached_item (job_request job) item)
             (partition_of (job_cache job) st) @ [(job_request job, r)]"
  using assms
  by (simp_all add: settle_def cache_put_accepted cache_match_store_same partition_of_store)

lemma settle_unchanged:
  assumes "job_outcome job = Inl e \<or> (job_outcome job = Inr r \<and> put_refuses (job_request job) r)"
  shows "settle job st = (None, st)"
  using assms by (auto simp: settle_def cache_put_refused)

lemma swr_miss_stored:
  assumes "cache_match cacheName request st = None"
      and "net (length (fetched st)) request = Inr r"
      and "\<not> put_refuses request r"
  shows "fst (staleWhileRevalidateStrategy net request cacheName st) = Inr r"
    and "cache_match cacheName request
           (fst (snd (staleWhileRevalidateStrategy net request cacheName st))) = Some r"
    and "partition_of cacheName (fst (snd (staleWhileRevalidateStrategy net request cacheName st))) =
           partition_of cacheName st @ [(request, r)]"
    and "snd (snd (staleWhileRevalidateStrategy net request cacheName st)) = None"
  using assms
  by (simp_all add: staleWhileRevalidateStrategy_def fetch_eq Let_def cache_match_open settle_def
        cache_put_accepted cache_match_store_same keys_open partition_of_store_miss
        partition_of_open)

lemma swr_miss_failed:
  assumes "cache_match cacheName request st = None"
      and "net (length (fetched st)) request = Inl e \<or>
           (net (length (fetched st)) request = Inr r \<and> put_refuses request r)"
  shows "fst (staleWhileRevalidateStrategy net request cacheName st) =
           Inl (Error ''No cached response and network unavailable'')"
    and "partition_of n (fst (snd (staleWhileRevalidateStrategy net request cacheName st))) =
           partition_of n st"
    and "snd (snd (staleWhileRevalidateStrategy net request cacheName st)) = None"
  using assms
  by (auto simp: staleWhileRevalidateStrategy_def fetch_eq Let_def cache_match_open settle_def
        cache_put_refused partition_of_open)

lemma swr_settled_stored:
  assumes "net (length (fetched st)) request = Inr r" and "\<not> put_refuses request r"
  shows "cache_match cacheName request
           (settled (snd (staleWhileRevalidateStrategy net request cacheName st))) = Some r"
  using assms
  by (simp add: staleWhileRevalidateStrategy_def fetch_eq Let_def settled_def settle_def
        cache_put_accepted cache_match_store_same keys_open split: option.splits)

lemma swr_settled_unchanged:
  assumes "net (length (fetched st)) request = Inl e \<or>
           (net (length (fetched st)) request = Inr r \<and> put_refuses request r)"
  shows "partition_of n (settled (snd (staleWhileRevalidateStrategy net request cacheName st))) =
           partition_of n st"
  using assms
  by (auto simp: staleWhileRevalidateStrategy_def fetch_eq Let_def settled_def settle_def
        cache_put_refused partition_of_open split: option.splits)

lemma holding_match:
  "\<not> put_refuses request r \<Longrightarrow> cache_match cacheName request (holding cacheName request r) = Some r"
  by (simp add: holding_def cache_match_store_same keys_open)

lemma holding_fetched: "fetched (holding cacheName request r) = []"
  by (simp add: holding_def initial_state_def)

lemma initial_match: "cache_match cacheName rq initial_state = None"
  by (simp add: cache_match_def partition_of_def initial_state_def)

lemma initial_fetched: "fetched initial_state = []"
  by (simp add: initial_state_def)

lemma accepts_page: "\<not> put_refuses (get_request (''https://'' @ rest)) page"
  and accepts_old_page: "\<not> put_refuses (get_request (''https://'' @ rest)) old_page"
  and accepts_server_error: "\<not> put_refuses (get_request (''https://'' @ rest)) server_error"
  and refuses_partial: "put_refuses rq partial_content"
  by (simp_all add: put_refuses_def get_request_def page_def old_page_def server_error_def
        partial_content_def vary_fields_def)

lemma catch_fallback_Inr: "catch_fallback request (Inr r, st, job) = (r, st, job)"
  by (simp add: catch_fallback_def)

lemma fold_caches_delete:
  "fold caches_delete ns st = st\<lparr>caches := filter (\<lambda>(n, c). n \<notin> set ns) (caches st)\<rparr>"
proof (induction ns arbitrary: st)
  case Nil
  then show ?case by simp
next
  case (Cons a ns)
  have "filter (\<lambda>(n, c). n \<notin> set ns) (filter (\<lambda>(n, c). n \<noteq> a) (caches st)) =
        filter (\<lambda>(n, c). n \<notin> set (a # ns)) (caches st)"
    by (induction "caches st") (auto intro: filter_cong)
  with Cons show ?case by (simp add: caches_delete_def)
qed

lemma clearAllCaches_eq: "clearAllCaches st = st\<lparr>caches := []\<rparr>"
proof -
  have "filter (\<lambda>(n, c). n \<notin> set (map fst (caches st))) (caches st) = []"
    by (auto simp: filter_empty_conv intro: rev_image_eqI)
  then show ?thesis by (simp add: clearAllCaches_def fold_caches_delete caches_keys_def)
qed

lemma fold_delete_old:
  "fold (\<lambda>cacheName s. if P cacheName then caches_delete cacheName s else s) ns st =
     st\<lparr>caches := filter (\<lambda>(n, c). \<not> (n \<in> set ns \<and> P n)) (caches st)\<rparr>"
proof (induction ns arbitrary: st)
  case Nil
  then show ?case by simp
next
  case (Cons a ns)
  show ?case
  proof (cases "P a")
    case True
    have "filter (\<lambda>(n, c). \<not> (n \<in> set ns \<and> P n)) (filter (\<lambda>(n, c). n \<noteq> a) (caches st)) =
          filter (\<lambda>(n, c). \<not> (n \<in> set (a # ns) \<and> P n)) (caches st)"
      using True by (auto intro: filter_cong)
    with True Cons show ?thesis by (simp add: caches_delete_def)
  next
    case False
    have "filter (\<lambda>(n, c). \<not> (n \<in> set ns \<and> P n)) (caches st) =
          filter (\<lambda>(n, c). \<not> (n \<in> set (a # ns) \<and> P n)) (caches st)"
      using False by (auto intro: filter_cong)
    with False Cons show ?thesis by simp
  qed
qed

lemma activate_eq:
  "activate st =
     st\<lparr>caches := filter (\<lambda>(n, c). n \<in> {STATIC_CACHE, DYNAMIC_CACHE, AUDIO_CACHE}) (caches st),
        clients_claimed := True\<rparr>"
proof -
  have "filter (\<lambda>(n, c). \<not> (n \<in> set (caches_keys st) \<and>
                 (n \<noteq> STATIC_CACHE \<and> n \<noteq> DYNAMIC_CACHE \<and> n \<noteq> AUDIO_CACHE))) (caches st) =
        filter (\<lambda>(n, c). n \<in> {STATIC_CACHE, DYNAMIC_CACHE, AUDIO_CACHE}) (caches st)"
    by (rule filter_cong) (auto simp: caches_keys_def intro: rev_image_eqI)
  then show ?thesis
    by (simp add: activate_def fold_delete_old)
qed

lemma fetched_store_delete [simp]: "fetched (store_delete k st) = fetched st"
  by (simp add: store_delete_def)

lemma replay_fetched: "fetched (replay net es st) = fetched st @ map replayed es"
  by (induction es arbitrary: st) (auto simp: fetch_eq split: sum.splits)

lemma replay_pending:
  "pending_requests (replay net es st) =
     filter (\<lambda>p. \<forall>(i, e) \<in> set (enumerate (length (fetched st)) es).
                   succeeded (net i (replayed e)) \<longrightarrow> rd_id p \<noteq> rd_id e)
       (pending_requests st)"
proof (induction es arbitrary: st)
  case Nil
  then show ?case by simp
next
  case (Cons e es)
  show ?case
  proof (cases "succeeded (net (length (fetched st)) (replayed e))")
    case True
    then obtain r where r: "net (length (fetched st)) (replayed e) = Inr r" "ok r"
      by (auto simp: succeeded_def split: sum.splits)
    with True show ?thesis
      by (auto simp: fetch_eq Cons.IH store_delete_def intro!: filter_cong)
  next
    case False
    then have "replay net (e # es) st = replay net es (st\<lparr>fetched := fetched st @ [replayed e]\<rparr>)"
      by (auto simp: fetch_eq succeeded_def split: sum.splits)
    with False show ?thesis
      by (auto simp: Cons.IH intro!: filter_cong)
  qed
qed

lemma filter_Cons_append: "filter P (a # es) = (if P a then [a] else []) @ filter P es"
  by simp

lemma kept_by_own_outcome:
  assumes "distinct (map rd_id es)"
  shows "filter (\<lambda>p. \<forall>(i, e) \<in> set (enumerate n es).
                   succeeded (net i (replayed e)) \<longrightarrow> rd_id p \<noteq> rd_id e) es =
         map snd (filter (\<lambda>(i, e). \<not> succeeded (net i (replayed e))) (enumerate n es))"
  using assms
proof (induction es arbitrary: n)
  case Nil
  then show ?case by simp
next
  case (Cons a es)
  have others: "rd_id p \<noteq> rd_id a" if "p \<in> set es" for p
    using Cons.prems that by (auto intro: rev_image_eqI)
  have ids: "rd_id e \<noteq> rd_id a" if "(i, e) \<in> set (enumerate m es)" for i e m
    using that others by (auto simp: in_set_enumerate_eq)
  have tail: "filter (\<lambda>p. \<forall>(i, e) \<in> set (enumerate n (a # es)).
                   succeeded (net i (replayed e)) \<longrightarrow> rd_id p \<noteq> rd_id e) es =
              filter (\<lambda>p. \<forall>(i, e) \<in> set (enumerate (Suc n) es).
                   succeeded (net i (replayed e)) \<longrightarrow> rd_id p \<noteq> rd_id e) es"
    by (rule filter_cong) (auto dest: others)
  have head: "(\<forall>(i, e) \<in> set (enumerate n (a # es)).
                   succeeded (net i (replayed e)) \<longrightarrow> rd_id a \<noteq> rd_id e) =
              (\<not> succeeded (net n (replayed a)))"
    using ids by fastforce
  from Cons.prems have "distinct (map rd_id es)" by simp
  note IH = Cons.IH[OF this, of "Suc n"]
  let ?P = "\<lambda>p. \<forall>(i, e) \<in> set (enumerate n (a # es)).
                   succeeded (net i (replayed e)) \<longrightarrow> rd_id p \<noteq> rd_id e"
  let ?Q = "\<lambda>(i, e). \<not> succeeded (net i (replayed e))"
  have "filter ?P (a # es) = (if ?P a then [a] else []) @ filter ?P es"
    by (rule filter_Cons_append)
  also have "\<dots> = (if \<not> succeeded (net n (replayed a)) then [a] else []) @
                   map snd (filter ?Q (enumerate (Suc n) es))"
    by (simp only: head tail IH)
  also have "\<dots> = map snd (filter ?Q (enumerate n (a # es)))"
    by simp
  finally show ?case .
qed

lemma kept_set:
  "set (map snd (filter (\<lambda>(i, e). \<not> succeeded (net i (replayed e))) (enumerate n es))) =
     {es ! k | k. k < length es \<and> \<not> succeeded (net (n + k) (replayed (es ! k)))}"
proof (intro set_eqI iffI)
  fix x
  assume "x \<in> set (map snd (filter (\<lambda>(i, e). \<not> succeeded (net i (replayed e))) (enumerate n es)))"
  then obtain i where i: "(i, x) \<in> set (enumerate n es)" "\<not> succeeded (net i (replayed x))"
    by auto
  then have "n \<le> i" "i - n < length es" "x = es ! (i - n)"
    by (auto simp: in_set_enumerate_eq)
  with i(2) have "i - n < length es \<and> \<not> succeeded (net (n + (i - n)) (replayed (es ! (i - n))))"
    by simp
  with \<open>x = es ! (i - n)\<close>
  show "x \<in> {es ! k | k. k < length es \<and> \<not> succeeded (net (n + k) (replayed (es ! k)))}"
    by blast
next
  fix x
  assume "x \<in> {es ! k | k. k < length es \<and> \<not> succeeded (net (n + k) (replayed (es ! k)))}"
  then obtain k where k: "x = es ! k" "k < length es" "\<not> succeeded (net (n + k) (replayed (es ! k)))"
    by blast
  then have "(n + k, x) \<in> set (enumerate n es)"
    by (simp add: in_set_enumerate_eq)
  with k show "x \<in> set (map snd (filter (\<lambda>(i, e). \<not> succeeded (net i (replayed e))) (enumerate n es)))"
    by force
qed

lemma sync_pending:
  assumes "distinct (map rd_id (pending_requests st))"
  shows "pending_requests (syncPendingRequests net st) =
           map snd (filter (\<lambda>(i, requestData). \<not> succeeded (net i (replayed requestData)))
                      (enumerate (length (fetched st)) (pending_requests st)))"
  by (simp only: syncPendingRequests_def replay_pending kept_by_own_outcome[OF assms])

lemma sync_entry_kept_iff:
  assumes "distinct (map rd_id (pending_requests st))" and "k < length (pending_requests st)"
  shows "(pending_requests st ! k \<in> set (pending_requests (syncPendingRequests net st))) =
           (\<not> succeeded (net (length (fetched st) + k) (replayed (pending_requests st ! k))))"
proof -
  from assms(1) have d: "distinct (pending_requests st)"
    by (simp add: distinct_map)
  have "(pending_requests st ! k \<in> set (pending_requests (syncPendingRequests net st))) =
        (\<exists>j. pending_requests st ! k = pending_requests st ! j \<and> j < length (pending_requests st) \<and>
             \<not> succeeded (net (length (fetched st) + j) (replayed (pending_requests st ! j))))"
    by (simp only: sync_pending[OF assms(1)] kept_set mem_Collect_eq)
  also have "\<dots> = (\<not> succeeded (net (length (fetched st) + k) (replayed (pending_requests st ! k))))"
    using d assms(2) by (auto simp: nth_eq_iff_index_eq)
  finally show ?thesis .
qed

lemma sync_all_succeeded:
  assumes "distinct (map rd_id (pending_requests st))"
      and "\<forall>k < length (pending_requests st).
             succeeded (net (length (fetched st) + k) (replayed (pending_requests st ! k)))"
  shows "pending_requests (syncPendingRequests net st) = []"
proof -
  have "set (pending_requests (syncPendingRequests net st)) = {}"
    using assms(2) by (simp only: sync_pending[OF assms(1)] kept_set) blast
  then show ?thesis by simp
qed

lemma caches_store_delete [simp]: "caches (store_delete k st) = caches st"
  by (simp add: store_delete_def)

lemma replay_caches: "caches (replay net es st) = caches st"
  by (induction es arbitrary: st) (auto simp: fetch_eq split: sum.splits)

lemma map_of_filter_key:
  "P n \<Longrightarrow> map_of (filter (\<lambda>(k, c). P k) xs) n = map_of xs n"
  by (induction xs) auto

lemma partition_of_activate:
  assumes "name \<in> {STATIC_CACHE, DYNAMIC_CACHE, AUDIO_CACHE}"
  shows "partition_of name (activate st) = partition_of name st"
proof -
  have "map_of (filter (\<lambda>(k, c). k \<in> {STATIC_CACHE, DYNAMIC_CACHE, AUDIO_CACHE}) (caches st)) name =
        map_of (caches st) name"
    using assms
    by (rule map_of_filter_key[where P = "\<lambda>k. k \<in> {STATIC_CACHE, DYNAMIC_CACHE, AUDIO_CACHE}"])
  moreover have "caches (activate st) =
        filter (\<lambda>(k, c). k \<in> {STATIC_CACHE, DYNAMIC_CACHE, AUDIO_CACHE}) (caches st)"
    by (simp add: activate_eq)
  ultimately show ?thesis
    by (simp only: partition_of_def)
qed

lemma caches_keys_activate:
  "(name \<in> set (caches_keys (activate st))) =
     (name \<in> set (caches_keys st) \<and> name \<in> {STATIC_CACHE, DYNAMIC_CACHE, AUDIO_CACHE})"
  by (force simp: activate_eq caches_keys_def)

lemma well_keyed_initial: "well_keyed initial_state"
  by (simp add: well_keyed_def initial_state_def)

lemma well_keyed_distinct: "well_keyed st \<Longrightarrow> distinct (map rd_id (pending_requests st))"
  by (simp add: well_keyed_def)

lemma well_keyed_store:
  assumes "well_keyed st"
  shows "well_keyed (storeForBackgroundSync now request st)"
proof -
  from assms have "rd_id e \<noteq> next_id st" if "e \<in> set (pending_requests st)" for e
    using that by (auto simp: well_keyed_def list_all_iff)
  with assms show ?thesis
    by (auto simp: well_keyed_def storeForBackgroundSync_def Let_def list_all_iff less_Suc_eq
          split: sum.splits)
qed

lemma well_keyed_same_store:
  "pending_requests st' = pending_requests st \<Longrightarrow> next_id st' = next_id st \<Longrightarrow>
     well_keyed st \<Longrightarrow> well_keyed st'"
  by (simp add: well_keyed_def)

lemma well_keyed_store_delete: "well_keyed st \<Longrightarrow> well_keyed (store_delete k st)"
  by (auto simp: well_keyed_def store_delete_def distinct_map_filter list_all_iff)

lemma well_keyed_fetched [simp]: "well_keyed (st\<lparr>fetched := f\<rparr>) = well_keyed st"
  by (simp add: well_keyed_def)

lemma well_keyed_replay: "well_keyed st \<Longrightarrow> well_keyed (replay net es st)"
  by (induction es arbitrary: st)
     (auto simp: fetch_eq well_keyed_store_delete split: sum.splits)

lemma well_keyed_sync: "well_keyed st \<Longrightarrow> well_keyed (syncPendingRequests net st)"
  by (simp add: syncPendingRequests_def well_keyed_replay)

lemma well_keyed_handlePostRequest:
  "well_keyed st \<Longrightarrow> well_keyed (snd (handlePostRequest net now request u st))"
  by (auto simp: handlePostRequest_def fetch_eq well_keyed_store split: sum.splits)

text \<open>No handler but activation and the clear-all command collects anything.\<close>

lemma stored_urls_open: "stored_urls n (caches_open name st) = stored_urls n st"
  by (simp add: stored_urls_def partition_of_open)

lemma stored_urls_store: "stored_urls n st \<subseteq> stored_urls n (cache_store name rq r st)"
proof
  fix u assume "u \<in> stored_urls n st"
  then obtain item where item: "item \<in> set (partition_of n st)"
      "u = without_fragment (url (fst item))"
    by (auto simp: stored_urls_def)
  show "u \<in> stored_urls n (cache_store name rq r st)"
  proof (cases "n = name \<and> name \<in> set (caches_keys st)")
    case False
    with item show ?thesis by (auto simp: stored_urls_def partition_of_store)
  next
    case True
    show ?thesis
    proof (cases "request_matches_cached_item rq item")
      case True
      then have "u = without_fragment (url rq)"
        using item(2) by (simp add: request_matches_cached_item_def)
      with \<open>n = name \<and> name \<in> set (caches_keys st)\<close> show ?thesis
        by (simp add: stored_urls_def partition_of_store)
    next
      case False
      with item \<open>n = name \<and> name \<in> set (caches_keys st)\<close> show ?thesis
        by (auto simp: stored_urls_def partition_of_store)
    qed
  qed
qed

lemma partitions_retained_refl [simp]: "partitions_retained st st"
  by (simp add: partitions_retained_def)

lemma partitions_retained_trans:
  "partitions_retained a b \<Longrightarrow> partitions_retained b c \<Longrightarrow> partitions_retained a c"
  unfolding partitions_retained_def by blast

lemma partitions_retained_same_caches: "caches st' = caches st \<Longrightarrow> partitions_retained st st'"
  by (simp add: partitions_retained_def caches_keys_def stored_urls_def partition_of_def)

lemma partitions_retained_open: "partitions_retained st (caches_open n st)"
  by (auto simp: partitions_retained_def caches_keys_open stored_urls_open)

lemma partitions_retained_store: "partitions_retained st (cache_store n rq r st)"
  by (simp add: partitions_retained_def stored_urls_store)

lemma partitions_retained_put: "cache_put n rq r st = Inr st' \<Longrightarrow> partitions_retained st st'"
  by (auto simp: cache_put_def partitions_retained_store split: if_splits)

lemma partitions_retained_fetched: "partitions_retained st (st\<lparr>fetched := f\<rparr>)"
  by (simp add: partitions_retained_same_caches)

lemma partitions_retained_settle: "partitions_retained st (snd (settle job st))"
  by (auto simp: settle_def cache_put_def partitions_retained_store split: sum.splits)

lemma partitions_retained_settled: "partitions_retained s (settled (s, job))"
  by (simp add: settled_def partitions_retained_settle split: option.splits)

lemma partitions_retained_cacheFirst:
  "partitions_retained st (snd (cacheFirstStrategy net request cacheName st))"
proof -
  let ?st1 = "caches_open cacheName st"
  have 1: "partitions_retained st ?st1" by (rule partitions_retained_open)
  have 2: "partitions_retained st (?st1\<lparr>fetched := f\<rparr>)" for f
    by (rule partitions_retained_trans[OF 1 partitions_retained_fetched])
  have 3: "partitions_retained st (cache_store cacheName request r (?st1\<lparr>fetched := f\<rparr>))" for f r
    by (rule partitions_retained_trans[OF 2 partitions_retained_store])
  show ?thesis
    by (auto simp: cacheFirstStrategy_def Let_def fetch_eq cache_put_def 1 2 3
          split: option.splits sum.splits)
qed

lemma partitions_retained_networkFirst_catch:
  "partitions_retained st (snd (networkFirst_catch e request cacheName st))"
  by (simp add: networkFirst_catch_def Let_def partitions_retained_open split: option.splits)

lemma partitions_retained_networkFirst:
  "partitions_retained st (snd (networkFirstStrategy net request cacheName st))"
proof -
  let ?st1 = "st\<lparr>fetched := fetched st @ [request]\<rparr>"
  let ?st2 = "caches_open cacheName ?st1"
  have 1: "partitions_retained st ?st1" by (rule partitions_retained_fetched)
  have 2: "partitions_retained st ?st2"
    by (rule partitions_retained_trans[OF 1 partitions_retained_open])
  have 3: "partitions_retained st (cache_store cacheName request r ?st2)" for r
    by (rule partitions_retained_trans[OF 2 partitions_retained_store])
  have 4: "partitions_retained st (snd (networkFirst_catch e request cacheName ?st1))" for e
    by (rule partitions_retained_trans[OF 1 partitions_retained_networkFirst_catch])
  have 5: "partitions_retained st (snd (networkFirst_catch e request cacheName ?st2))" for e
    by (rule partitions_retained_trans[OF 2 partitions_retained_networkFirst_catch])
  show ?thesis
    by (auto simp: networkFirstStrategy_def Let_def fetch_eq cache_put_def 3 4 5
          split: sum.splits)
qed

lemma partitions_retained_swr:
  "partitions_retained st (fst (snd (staleWhileRevalidateStrategy net request cacheName st)))"
  "partitions_retained st (settled (snd (staleWhileRevalidateStrategy net request cacheName st)))"
proof -
  let ?st2 = "(caches_open cacheName st)\<lparr>fetched := fetched st @ [request]\<rparr>"
  have 2: "partitions_retained st ?st2"
    by (rule partitions_retained_trans[OF partitions_retained_open partitions_retained_fetched])
  have 3: "partitions_retained st (snd (settle job ?st2))" for job
    by (rule partitions_retained_trans[OF 2 partitions_retained_settle])
  show "partitions_retained st (fst (snd (staleWhileRevalidateStrategy net request cacheName st)))"
    using 2 3
    by (auto simp: staleWhileRevalidateStrategy_def Let_def fetch_eq
          split: option.splits prod.splits)
       (metis snd_conv)+
  show "partitions_retained st (settled (snd (staleWhileRevalidateStrategy net request cacheName st)))"
    using 2 3
    by (auto simp: staleWhileRevalidateStrategy_def Let_def fetch_eq settled_def
          split: option.splits prod.splits)
       (metis snd_conv)+
qed

lemma partitions_retained_fallback: "partitions_retained st (snd (getFallbackResponse request st))"
  by (auto simp: getFallbackResponse_def Let_def partitions_retained_open split: option.splits)

lemma partitions_retained_catch_fallback:
  assumes "partitions_retained st (fst (snd X))"
  shows "partitions_retained st (fst (snd (catch_fallback request X)))"
    and "partitions_retained st (settled (snd (catch_fallback request X)))"
proof -
  obtain res st1 job where X: "X = (res, st1, job)"
    by (cases X) auto
  obtain fb st2 where fb: "getFallbackResponse request st1 = (fb, st2)"
    by (cases "getFallbackResponse request st1") auto
  from partitions_retained_fallback[of st1 request] fb have "partitions_retained st1 st2"
    by simp
  with assms X have st2: "partitions_retained st st2"
    by (auto intro: partitions_retained_trans)
  from assms X have st1: "partitions_retained st st1"
    by simp
  show "partitions_retained st (fst (snd (catch_fallback request X)))"
    using X fb st1 st2 by (cases res) (simp_all add: catch_fallback_def)
  show "partitions_retained st (settled (snd (catch_fallback request X)))"
    using X fb st1 st2
    by (cases res)
       (auto simp: catch_fallback_def intro: partitions_retained_trans[OF _ partitions_retained_settled])
qed

lemma partitions_retained_handleGetRequest:
  "partitions_retained st (fst (snd (handleGetRequest net request u st)))"
  "partitions_retained st (settled (snd (handleGetRequest net request u st)))"
  unfolding handleGetRequest_def
  by (rule partitions_retained_catch_fallback;
      simp add: awaited_def partitions_retained_cacheFirst partitions_retained_networkFirst
        partitions_retained_swr)+

lemma partitions_retained_handlePostRequest:
  "partitions_retained st (snd (handlePostRequest net now request u st))"
  by (auto simp: handlePostRequest_def fetch_eq storeForBackgroundSync_def Let_def
        split: sum.splits intro!: partitions_retained_same_caches)

lemma partitions_retained_on_fetch:
  assumes "on_fetch net now request st = RespondWith r st' job"
  shows "partitions_retained st st'" and "partitions_retained st (settled (st', job))"
proof -
  show "partitions_retained st st'"
  proof (cases "request_method request = ''GET''")
    case True
    with assms partitions_retained_handleGetRequest(1)[of st net request "new_URL (url request)"]
    show ?thesis by (auto simp: on_fetch_def Let_def split: prod.splits)
  next
    case False
    with assms partitions_retained_handlePostRequest[of st net now request "new_URL (url request)"]
    show ?thesis by (auto simp: on_fetch_def Let_def split: prod.splits if_splits)
  qed
  show "partitions_retained st (settled (st', job))"
  proof (cases "request_method request = ''GET''")
    case True
    with assms partitions_retained_handleGetRequest(2)[of st net request "new_URL (url request)"]
    show ?thesis by (auto simp: on_fetch_def Let_def split: prod.splits)
  next
    case False
    with assms partitions_retained_handlePostRequest[of st net now request "new_URL (url request)"]
    show ?thesis by (auto simp: on_fetch_def Let_def settled_def split: prod.splits if_splits)
  qed
qed

lemma partitions_retained_sync: "partitions_retained st (syncPendingRequests net st)"
  by (simp add: syncPendingRequests_def replay_caches partitions_retained_same_caches)

lemma caches_syncMoodData: "caches (syncMoodData net st) = caches st"
  by (simp add: syncMoodData_def Let_def fetch_eq split: sum.splits)

lemma caches_syncSessionProgress: "caches (syncSessionProgress net st) = caches st"
  by (simp add: syncSessionProgress_def Let_def fetch_eq split: sum.splits)

lemma partitions_retained_on_sync: "partitions_retained st (on_sync net t st)"
  by (simp add: on_sync_def partitions_retained_sync partitions_retained_same_caches
        caches_syncMoodData caches_syncSessionProgress)

lemma caches_on_push: "caches (on_push d st) = caches st"
  by (cases d) (simp_all add: on_push_def)

lemma partitions_retained_on_push: "partitions_retained st (on_push d st)"
  by (simp add: partitions_retained_same_caches caches_on_push)

lemma caches_on_notificationclick: "caches (on_notificationclick n st) = caches st"
  by (simp add: on_notificationclick_def Let_def)

lemma partitions_retained_on_notificationclick: "partitions_retained st (on_notificationclick n st)"
  by (simp add: partitions_retained_same_caches caches_on_notificationclick)

lemma partitions_retained_check: "partitions_retained st (checkCrisisSupport now st)"
  by (simp add: checkCrisisSupport_def Let_def partitions_retained_same_caches)

lemma caches_sendMoodReminder: "caches (sendMoodReminder today st) = caches st"
  by (simp add: sendMoodReminder_def split: option.splits)

lemma partitions_retained_on_periodicsync: "partitions_retained st (on_periodicsync now today t st)"
  by (simp add: on_periodicsync_def partitions_retained_check partitions_retained_same_caches
        caches_sendMoodReminder)

lemma caches_fetch_each: "caches (snd (fetch_each net rqs st)) = caches st"
proof (induction rqs arbitrary: st)
  case Nil
  then show ?case by simp
next
  case (Cons a rqs)
  from Cons[of "st\<lparr>fetched := fetched st @ [a]\<rparr>"] show ?case
    by (cases "fetch_each net rqs (st\<lparr>fetched := fetched st @ [a]\<rparr>)") (simp add: fetch_eq)
qed

lemma partitions_retained_store_each: "partitions_retained st (store_each name fs st)"
proof (induction fs arbitrary: st)
  case Nil
  then show ?case by (simp add: store_each_def)
next
  case (Cons f fs)
  obtain rq outcome where f: "f = (rq, outcome)" by (cases f)
  show ?case
  proof (cases outcome)
    case (Inl e)
    with f Cons[of st] show ?thesis by (simp add: store_each_def)
  next
    case (Inr r)
    with f Cons[of "cache_store name rq r st"] show ?thesis
      by (auto simp: store_each_def intro: partitions_retained_trans[OF partitions_retained_store])
  qed
qed

lemma partitions_retained_addAll: "partitions_retained st (snd (cache_addAll net name urls st))"
proof -
  let ?rqs = "map (new_Request st) urls"
  obtain outcomes st1 where f: "fetch_each net ?rqs st = (outcomes, st1)"
    by (cases "fetch_each net ?rqs st")
  with caches_fetch_each[of net ?rqs st] have "partitions_retained st st1"
    by (simp add: partitions_retained_same_caches)
  then have "partitions_retained st (store_each name fs st1)" for fs
    by (rule partitions_retained_trans[OF _ partitions_retained_store_each])
  with f \<open>partitions_retained st st1\<close> show ?thesis
    by (simp add: cache_addAll_def Let_def)
qed

lemma partitions_retained_cacheAudioFile: "partitions_retained st (cacheAudioFile net u st)"
  unfolding cacheAudioFile_def
  by (rule partitions_retained_trans[OF partitions_retained_open partitions_retained_addAll])

lemma partitions_retained_on_message:
  "message_type m \<noteq> ''CLEAR_CACHE'' \<Longrightarrow> partitions_retained st (on_message net m st)"
  by (simp add: on_message_def partitions_retained_cacheAudioFile triggerSync_def
        partitions_retained_same_caches)

lemma partitions_retained_install: "partitions_retained st (install net st)"
proof -
  let ?st1 = "caches_open AUDIO_CACHE (caches_open STATIC_CACHE st)"
  let ?a = "cache_addAll net STATIC_CACHE STATIC_ASSETS ?st1"
  let ?b = "cache_addAll net AUDIO_CACHE [''/audio/breathing-basics-64k.mp3''] (snd ?a)"
  have 1: "partitions_retained st ?st1"
    by (rule partitions_retained_trans[OF partitions_retained_open partitions_retained_open])
  have 2: "partitions_retained st (snd ?a)"
    by (rule partitions_retained_trans[OF 1 partitions_retained_addAll])
  have 3: "partitions_retained st (snd ?b)"
    by (rule partitions_retained_trans[OF 2 partitions_retained_addAll])
  have 4: "partitions_retained st ((snd ?b)\<lparr>skip_waiting := True\<rparr>)"
    by (rule partitions_retained_trans[OF 3 partitions_retained_same_caches]) simp
  obtain a_done sa where a: "?a = (a_done, sa)" by (cases ?a)
  obtain b_done sb where b: "cache_addAll net AUDIO_CACHE [''/audio/breathing-basics-64k.mp3''] sa
                               = (b_done, sb)"
    by (cases "cache_addAll net AUDIO_CACHE [''/audio/breathing-basics-64k.mp3''] sa")
  from a b 3 4 have "partitions_retained st sb" "partitions_retained st (sb\<lparr>skip_waiting := True\<rparr>)"
    by simp_all
  with a b show ?thesis
    by (simp add: install_def Let_def)
qed

lemma activate_example: "caches_keys (activate before_activation) = [STATIC_CACHE]"
  by (simp add: activate_eq before_activation_def caches_keys_def STATIC_CACHE_def
        DYNAMIC_CACHE_def AUDIO_CACHE_def)

text \<open>
  What \<open>storeForBackgroundSync\<close> gets from \<open>handlePostRequest\<close>: a request with a body has
  lost it to \<open>fetch\<close>, \<open>request.text()\<close> rejects and nothing is stored; a request without a
  body is stored with the empty text.
\<close>

lemma store_sent_with_body:
  "body request \<noteq> None \<Longrightarrow> storeForBackgroundSync now (sent request) st = st"
  by (simp add: storeForBackgroundSync_def request_text_def sent_def)


lemma post_with_body_acknowledged_but_not_queued:
  assumes "request_method request = ''POST''" and "body request \<noteq> None"
      and "net (length (fetched st)) request = Inl e"
      and "prefix ''/api/'' (pathname (new_URL (url request)))"
  shows "on_fetch net now request st =
           RespondWith (Inr queued_response) (st\<lparr>fetched := fetched st @ [request]\<rparr>) None"
  using assms
  by (simp add: on_fetch_def Let_def handlePostRequest_def fetch_eq store_sent_with_body)

lemma pathname_rooms:
  "pathname (new_URL ''https://mindchat.app/api/peer/rooms/'') = ''/api/peer/rooms/''"
  by (simp add: new_URL_def Let_def sublist_code)


lemma pathname_mood: "pathname (new_URL ''https://mindchat.app/api/mood'') = ''/api/mood''"
  by (simp add: new_URL_def Let_def sublist_code)



section \<open>The claims\<close>

text \<open>
  C1 (the classifier). The claim and the comments of the code say that a GET for a path under
  \<open>/api/\<close> that is neither a static asset nor an audio path is served network-first. The
  code tests whether the path ends with an entry of \<open>STATIC_ASSETS\<close>, and \<open>/\<close> is one of
  them: a path under \<open>/api/\<close> that ends with a slash is served cache-first from the static
  partition. The first answer to \<open>/api/peer/rooms/\<close> is stored there, and a later request
  gets that stored answer without any fetch while the network would give a fresh one, which
  is what network-first returns in the same state.
\<close>

theorem api_path_ending_with_slash_served_cache_first:
  "''/api/peer/rooms/'' \<notin> set STATIC_ASSETS
   \<and> \<not> sublist ''/audio/'' (pathname (new_URL ''https://mindchat.app/api/peer/rooms/''))
   \<and> prefix ''/api/'' (pathname (new_URL ''https://mindchat.app/api/peer/rooms/''))
   \<and> on_fetch (online old_page) 0 (get_request ''https://mindchat.app/api/peer/rooms/'') initial_state =
       RespondWith (Inr old_page)
         ((holding STATIC_CACHE (get_request ''https://mindchat.app/api/peer/rooms/'') old_page)
            \<lparr>fetched := [get_request ''https://mindchat.app/api/peer/rooms/'']\<rparr>) None
   \<and> on_fetch (online page) 0 (get_request ''https://mindchat.app/api/peer/rooms/'')
         ((holding STATIC_CACHE (get_request ''https://mindchat.app/api/peer/rooms/'') old_page)
            \<lparr>fetched := [get_request ''https://mindchat.app/api/peer/rooms/'']\<rparr>) =
       RespondWith (Inr old_page)
         ((holding STATIC_CACHE (get_request ''https://mindchat.app/api/peer/rooms/'') old_page)
            \<lparr>fetched := [get_request ''https://mindchat.app/api/peer/rooms/'']\<rparr>) None
   \<and> fst (networkFirstStrategy (online page) (get_request ''https://mindchat.app/api/peer/rooms/'')
         DYNAMIC_CACHE
         ((holding STATIC_CACHE (get_request ''https://mindchat.app/api/peer/rooms/'') old_page)
            \<lparr>fetched := [get_request ''https://mindchat.app/api/peer/rooms/'']\<rparr>)) = Inr page"
proof -
  let ?rq = "get_request ''https://mindchat.app/api/peer/rooms/''"
  let ?held = "(holding STATIC_CACHE ?rq old_page)\<lparr>fetched := [?rq]\<rparr>"
  have u: "url ?rq = ''https://mindchat.app/api/peer/rooms/''"
    and get: "request_method ?rq = ''GET''"
    by (simp_all add: get_request_def)
  have static: "list_ex (\<lambda>asset. suffix asset (pathname (new_URL (url ?rq)))) STATIC_ASSETS"
    by (simp add: u pathname_rooms STATIC_ASSETS_def suffix_to_prefix)
  have old: "\<not> put_refuses ?rq old_page" and new: "\<not> put_refuses ?rq page"
    using accepts_old_page[of "''mindchat.app/api/peer/rooms/''"]
          accepts_page[of "''mindchat.app/api/peer/rooms/''"] by simp_all
  have first: "cacheFirstStrategy (online old_page) ?rq STATIC_CACHE initial_state =
                 (Inr old_page, ?held)"
    using old
    by (simp add: cacheFirstStrategy_def Let_def cache_match_open initial_match fetch_eq
          online_def cache_put_accepted holding_def initial_fetched caches_open_fetched_upd
          cache_store_def)
  have hit: "cache_match STATIC_CACHE ?rq ?held = Some old_page"
    using holding_match[OF old, of STATIC_CACHE] by simp
  have later: "cacheFirstStrategy (online page) ?rq STATIC_CACHE ?held = (Inr old_page, ?held)"
    by (rule cacheFirst_hit[OF hit])
  have 1: "''/api/peer/rooms/'' \<notin> set STATIC_ASSETS"
    by (simp add: STATIC_ASSETS_def)
  have 2: "\<not> sublist ''/audio/'' (pathname (new_URL ''https://mindchat.app/api/peer/rooms/''))"
    by (simp add: pathname_rooms sublist_code)
  have 3: "prefix ''/api/'' (pathname (new_URL ''https://mindchat.app/api/peer/rooms/''))"
    by (simp add: pathname_rooms)
  have 4: "on_fetch (online old_page) 0 ?rq initial_state = RespondWith (Inr old_page) ?held None"
    using static get first
    by (simp add: on_fetch_def Let_def handleGetRequest_def awaited_def catch_fallback_Inr)
  have 5: "on_fetch (online page) 0 ?rq ?held = RespondWith (Inr old_page) ?held None"
    using static get later
    by (simp add: on_fetch_def Let_def handleGetRequest_def awaited_def catch_fallback_Inr)
  have 6: "fst (networkFirstStrategy (online page) ?rq DYNAMIC_CACHE ?held) = Inr page"
    by (rule networkFirst_stored(1)[OF _ new]) (simp add: online_def)
  show ?thesis
    by (intro conjI 1 2 3 4 5 6)
qed




text \<open>
  C3 (network-first), as the code has it. The fetch comes first. When it resolves with a
  response \<open>cache.put\<close> accepts, that response is returned and replaces the stored pairs
  the request matched. When the fetch is rejected and a stored response matches, that
  snapshot is returned and nothing but the list of fetches has changed. When the fetch is
  rejected and nothing matches, the call fails with the error of the fetch.
\<close>

theorem network_first_fresh_or_snapshot_or_failure:
  assumes "networkFirstStrategy net request cacheName st = (result, st')"
  shows "fetched st' = fetched st @ [request]
       \<and> (net (length (fetched st)) request = Inr r \<and> \<not> put_refuses request r \<longrightarrow>
            result = Inr r
            \<and> partition_of cacheName st' =
                filter (\<lambda>item. \<not> request_matches_cached_item request item)
                  (partition_of cacheName st) @ [(request, r)]
            \<and> cache_match cacheName request st' = Some r)
       \<and> (net (length (fetched st)) request = Inl e \<and>
            cache_match cacheName request st = Some snapshot \<longrightarrow>
            result = Inr snapshot \<and> st' = st\<lparr>fetched := fetched st @ [request]\<rparr>)
       \<and> (net (length (fetched st)) request = Inl e \<and>
            cache_match cacheName request st = None \<longrightarrow>
            result = Inl e \<and> partition_of cacheName st' = partition_of cacheName st)"
proof (intro conjI impI)
  show "fetched st' = fetched st @ [request]"
    using assms networkFirst_fetched[of net request cacheName st] by simp
next
  assume "net (length (fetched st)) request = Inr r \<and> \<not> put_refuses request r"
  then have resolved: "net (length (fetched st)) request = Inr r"
    and accepted: "\<not> put_refuses request r" by simp_all
  from networkFirst_stored[where net = net, OF resolved accepted, of cacheName] assms
  show "result = Inr r"
    and "partition_of cacheName st' =
           filter (\<lambda>item. \<not> request_matches_cached_item request item)
             (partition_of cacheName st) @ [(request, r)]"
    and "cache_match cacheName request st' = Some r"
    by simp_all
next
  assume "net (length (fetched st)) request = Inl e \<and>
          cache_match cacheName request st = Some snapshot"
  then have rejected: "net (length (fetched st)) request = Inl e"
    and hit: "cache_match cacheName request st = Some snapshot" by simp_all
  from networkFirst_fallback[where net = net, OF rejected hit] assms
  show "result = Inr snapshot" and "st' = st\<lparr>fetched := fetched st @ [request]\<rparr>"
    by simp_all
next
  assume "net (length (fetched st)) request = Inl e \<and>
          cache_match cacheName request st = None"
  then have rejected: "net (length (fetched st)) request = Inl e"
    and miss: "cache_match cacheName request st = None" by simp_all
  from networkFirst_failure[where net = net, OF rejected miss] assms
  show "result = Inl e" and "partition_of cacheName st' = partition_of cacheName st"
    by simp_all
qed

theorem network_first_fresh_or_snapshot_or_failure_witness:
  "online page (length (fetched (holding DYNAMIC_CACHE (get_request ''https://mindchat.app/api/mood'') old_page)))
      (get_request ''https://mindchat.app/api/mood'') = Inr page
   \<and> \<not> put_refuses (get_request ''https://mindchat.app/api/mood'') page
   \<and> fst (networkFirstStrategy (online page) (get_request ''https://mindchat.app/api/mood'')
            DYNAMIC_CACHE (holding DYNAMIC_CACHE (get_request ''https://mindchat.app/api/mood'') old_page))
       = Inr page
   \<and> cache_match DYNAMIC_CACHE (get_request ''https://mindchat.app/api/mood'')
        (snd (networkFirstStrategy (online page) (get_request ''https://mindchat.app/api/mood'')
            DYNAMIC_CACHE (holding DYNAMIC_CACHE (get_request ''https://mindchat.app/api/mood'') old_page)))
       = Some page
   \<and> cache_match DYNAMIC_CACHE (get_request ''https://mindchat.app/api/mood'')
        (holding DYNAMIC_CACHE (get_request ''https://mindchat.app/api/mood'') old_page) = Some old_page
   \<and> fst (networkFirstStrategy offline (get_request ''https://mindchat.app/api/mood'')
            DYNAMIC_CACHE (holding DYNAMIC_CACHE (get_request ''https://mindchat.app/api/mood'') old_page))
       = Inr old_page
   \<and> cache_match DYNAMIC_CACHE (get_request ''https://mindchat.app/api/mood'') initial_state = None
   \<and> fst (networkFirstStrategy offline (get_request ''https://mindchat.app/api/mood'')
            DYNAMIC_CACHE initial_state) = Inl (TypeError ''Failed to fetch'')"
proof -
  let ?rq = "get_request ''https://mindchat.app/api/mood''"
  let ?held = "holding DYNAMIC_CACHE ?rq old_page"
  let ?fresh = "networkFirstStrategy (online page) ?rq DYNAMIC_CACHE ?held"
  let ?served = "networkFirstStrategy offline ?rq DYNAMIC_CACHE ?held"
  let ?fail = "networkFirstStrategy offline ?rq DYNAMIC_CACHE initial_state"
  have old: "\<not> put_refuses ?rq old_page" and new: "\<not> put_refuses ?rq page"
    using accepts_old_page[of "''mindchat.app/api/mood''"]
          accepts_page[of "''mindchat.app/api/mood''"] by simp_all
  have resolved: "online page (length (fetched ?held)) ?rq = Inr page"
    by (simp add: online_def)
  have rejected: "offline n ?rq = Inl (TypeError ''Failed to fetch'')" for n
    by (simp add: offline_def)
  have hit: "cache_match DYNAMIC_CACHE ?rq ?held = Some old_page"
    by (rule holding_match[OF old])
  have miss: "cache_match DYNAMIC_CACHE ?rq initial_state = None"
    by (rule initial_match)
  have a: "?fresh = (fst ?fresh, snd ?fresh)" and b: "?served = (fst ?served, snd ?served)"
    and c: "?fail = (fst ?fail, snd ?fail)"
    by simp_all
  from network_first_fresh_or_snapshot_or_failure[OF a, of page] resolved new
  have 1: "fst ?fresh = Inr page" and 2: "cache_match DYNAMIC_CACHE ?rq (snd ?fresh) = Some page"
    by blast+
  from network_first_fresh_or_snapshot_or_failure[OF b, of _ "TypeError ''Failed to fetch''" old_page]
       rejected hit
  have 3: "fst ?served = Inr old_page"
    by blast
  from network_first_fresh_or_snapshot_or_failure[OF c, of _ "TypeError ''Failed to fetch''"]
       rejected miss
  have 4: "fst ?fail = Inl (TypeError ''Failed to fetch'')"
    by blast
  show ?thesis
    by (intro conjI resolved new 1 2 hit 3 miss 4)
qed

text \<open>
  C3 as it is stated fails for a response \<open>cache.put\<close> refuses: the fetch resolves with a
  partial response (status 206), the rejected put lands in the \<open>catch\<close> of the strategy, the
  caller gets the stored snapshot instead of the body of the network, and the partition is
  not overwritten.
\<close>

theorem network_first_partial_response_discarded:
  "online partial_content
      (length (fetched (holding DYNAMIC_CACHE (get_request ''https://mindchat.app/api/mood'') old_page)))
      (get_request ''https://mindchat.app/api/mood'') = Inr partial_content
   \<and> networkFirstStrategy (online partial_content) (get_request ''https://mindchat.app/api/mood'')
        DYNAMIC_CACHE (holding DYNAMIC_CACHE (get_request ''https://mindchat.app/api/mood'') old_page)
       = (Inr old_page,
          (holding DYNAMIC_CACHE (get_request ''https://mindchat.app/api/mood'') old_page)
            \<lparr>fetched := [get_request ''https://mindchat.app/api/mood'']\<rparr>)
   \<and> old_page \<noteq> partial_content"
proof -
  let ?rq = "get_request ''https://mindchat.app/api/mood''"
  let ?held = "holding DYNAMIC_CACHE ?rq old_page"
  have old: "\<not> put_refuses ?rq old_page"
    using accepts_old_page[of "''mindchat.app/api/mood''"] by simp
  have resolved: "online partial_content (length (fetched ?held)) ?rq = Inr partial_content"
    by (simp add: online_def)
  have 1: "networkFirstStrategy (online partial_content) ?rq DYNAMIC_CACHE ?held =
             (Inr old_page, ?held\<lparr>fetched := [?rq]\<rparr>)"
    using networkFirst_refused_hit[where net = "online partial_content",
            OF resolved refuses_partial holding_match[OF old]]
    by (simp add: holding_fetched)
  have 2: "old_page \<noteq> partial_content"
    by (simp add: old_page_def partial_content_def)
  show ?thesis
    by (intro conjI resolved 1 2)
qed

text \<open>
  C4 (stale-while-revalidate), as the code has it. When a stored response matches, the call
  returns it with the fetch issued but not awaited: the result and the state at the return
  are the same for every network, the partition is as it was, and the fetch is left in
  flight. Once that fetch settles, the partition holds its response for the request if it
  resolved with a response \<open>cache.put\<close> accepts, and is unchanged if it was rejected. When
  nothing matches, the fetch is awaited: a response \<open>cache.put\<close> accepts is returned and
  stored, and the call fails if the fetch is rejected.
\<close>

theorem stale_while_revalidate_snapshot_first:
  assumes "staleWhileRevalidateStrategy net request cacheName st = (result, st', in_flight)"
  shows "(cache_match cacheName request st = Some snapshot \<longrightarrow>
            result = Inr snapshot
            \<and> st' = st\<lparr>fetched := fetched st @ [request]\<rparr>
            \<and> in_flight = Some \<lparr>job_cache = cacheName, job_request = request,
                                 job_outcome = net (length (fetched st)) request\<rparr>
            \<and> (\<forall>r. \<not> put_refuses request r \<longrightarrow>
                  cache_match cacheName request
                    (snd (settle \<lparr>job_cache = cacheName, job_request = request,
                                  job_outcome = Inr r\<rparr> st')) = Some r)
            \<and> (\<forall>e. snd (settle \<lparr>job_cache = cacheName, job_request = request,
                                 job_outcome = Inl e\<rparr> st') = st'))
       \<and> (cache_match cacheName request st = None \<and>
            net (length (fetched st)) request = Inr r \<and> \<not> put_refuses request r \<longrightarrow>
            result = Inr r \<and> in_flight = None
            \<and> partition_of cacheName st' = partition_of cacheName st @ [(request, r)]
            \<and> cache_match cacheName request st' = Some r)
       \<and> (cache_match cacheName request st = None \<and>
            net (length (fetched st)) request = Inl e \<longrightarrow>
            result = Inl (Error ''No cached response and network unavailable'')
            \<and> in_flight = None
            \<and> partition_of cacheName st' = partition_of cacheName st)"
proof (intro conjI impI allI)
  assume hit: "cache_match cacheName request st = Some snapshot"
  from swr_hit[OF hit, of net] assms
  show "result = Inr snapshot"
    and st': "st' = st\<lparr>fetched := fetched st @ [request]\<rparr>"
    and "in_flight = Some \<lparr>job_cache = cacheName, job_request = request,
                            job_outcome = net (length (fetched st)) request\<rparr>"
    by simp_all
  have present: "cacheName \<in> set (caches_keys st')"
    using cache_match_Some_keys[OF hit] st' by simp
  show "cache_match cacheName request
          (snd (settle \<lparr>job_cache = cacheName, job_request = request, job_outcome = Inr r\<rparr> st'))
        = Some r" if "\<not> put_refuses request r" for r
    using that present
    by (simp add: settle_def cache_put_accepted cache_match_store_same)
  show "snd (settle \<lparr>job_cache = cacheName, job_request = request, job_outcome = Inl e\<rparr> st') = st'"
    for e
    by (simp add: settle_def)
next
  assume "cache_match cacheName request st = None \<and>
          net (length (fetched st)) request = Inr r \<and> \<not> put_refuses request r"
  then have miss: "cache_match cacheName request st = None"
    and resolved: "net (length (fetched st)) request = Inr r"
    and accepted: "\<not> put_refuses request r" by simp_all
  from swr_miss_stored[where net = net, OF miss resolved accepted] assms
  show "result = Inr r" and "in_flight = None"
    and "partition_of cacheName st' = partition_of cacheName st @ [(request, r)]"
    and "cache_match cacheName request st' = Some r"
    by simp_all
next
  assume "cache_match cacheName request st = None \<and>
          net (length (fetched st)) request = Inl e"
  then have miss: "cache_match cacheName request st = None"
    and rejected: "net (length (fetched st)) request = Inl e" by simp_all
  from swr_miss_failed[where net = net and e = e, OF miss] rejected assms
  show "result = Inl (Error ''No cached response and network unavailable'')"
    and "in_flight = None"
    and "partition_of cacheName st' = partition_of cacheName st"
    by simp_all
qed

theorem stale_while_revalidate_snapshot_first_witness:
  "cache_match DYNAMIC_CACHE (get_request ''https://mindchat.app/styles.css'')
      (holding DYNAMIC_CACHE (get_request ''https://mindchat.app/styles.css'') old_page) = Some old_page
   \<and> \<not> put_refuses (get_request ''https://mindchat.app/styles.css'') page
   \<and> fst (staleWhileRevalidateStrategy (online page) (get_request ''https://mindchat.app/styles.css'')
            DYNAMIC_CACHE (holding DYNAMIC_CACHE (get_request ''https://mindchat.app/styles.css'') old_page))
       = Inr old_page
   \<and> cache_match DYNAMIC_CACHE (get_request ''https://mindchat.app/styles.css'')
        (fst (snd (staleWhileRevalidateStrategy (online page) (get_request ''https://mindchat.app/styles.css'')
            DYNAMIC_CACHE (holding DYNAMIC_CACHE (get_request ''https://mindchat.app/styles.css'') old_page))))
       = Some old_page
   \<and> cache_match DYNAMIC_CACHE (get_request ''https://mindchat.app/styles.css'')
        (settled (snd (staleWhileRevalidateStrategy (online page) (get_request ''https://mindchat.app/styles.css'')
            DYNAMIC_CACHE (holding DYNAMIC_CACHE (get_request ''https://mindchat.app/styles.css'') old_page))))
       = Some page
   \<and> cache_match DYNAMIC_CACHE (get_request ''https://mindchat.app/styles.css'') initial_state = None
   \<and> fst (staleWhileRevalidateStrategy (online page) (get_request ''https://mindchat.app/styles.css'')
            DYNAMIC_CACHE initial_state) = Inr page
   \<and> fst (staleWhileRevalidateStrategy offline (get_request ''https://mindchat.app/styles.css'')
            DYNAMIC_CACHE initial_state) = Inl (Error ''No cached response and network unavailable'')"
proof -
  let ?rq = "get_request ''https://mindchat.app/styles.css''"
  let ?held = "holding DYNAMIC_CACHE ?rq old_page"
  let ?stale = "staleWhileRevalidateStrategy (online page) ?rq DYNAMIC_CACHE ?held"
  let ?first = "staleWhileRevalidateStrategy (online page) ?rq DYNAMIC_CACHE initial_state"
  let ?fail = "staleWhileRevalidateStrategy offline ?rq DYNAMIC_CACHE initial_state"
  have old: "\<not> put_refuses ?rq old_page" and new: "\<not> put_refuses ?rq page"
    using accepts_old_page[of "''mindchat.app/styles.css''"]
          accepts_page[of "''mindchat.app/styles.css''"] by simp_all
  have resolved: "online page n ?rq = Inr page" for n
    by (simp add: online_def)
  have rejected: "offline n ?rq = Inl (TypeError ''Failed to fetch'')" for n
    by (simp add: offline_def)
  have hit: "cache_match DYNAMIC_CACHE ?rq ?held = Some old_page"
    by (rule holding_match[OF old])
  have miss: "cache_match DYNAMIC_CACHE ?rq initial_state = None"
    by (rule initial_match)
  have a: "?stale = (fst ?stale, fst (snd ?stale), snd (snd ?stale))"
    and b: "?first = (fst ?first, fst (snd ?first), snd (snd ?first))"
    and c: "?fail = (fst ?fail, fst (snd ?fail), snd (snd ?fail))"
    by simp_all
  from stale_while_revalidate_snapshot_first[OF a, of old_page] hit new
  have 1: "fst ?stale = Inr old_page"
    and 2: "fst (snd ?stale) = ?held\<lparr>fetched := fetched ?held @ [?rq]\<rparr>"
    and 3: "snd (snd ?stale) = Some \<lparr>job_cache = DYNAMIC_CACHE, job_request = ?rq,
                                      job_outcome = online page (length (fetched ?held)) ?rq\<rparr>"
    and 4: "cache_match DYNAMIC_CACHE ?rq
              (snd (settle \<lparr>job_cache = DYNAMIC_CACHE, job_request = ?rq, job_outcome = Inr page\<rparr>
                     (fst (snd ?stale)))) = Some page"
    by blast+
  from 2 hit have 5: "cache_match DYNAMIC_CACHE ?rq (fst (snd ?stale)) = Some old_page"
    by simp
  from 3 4 have 6: "cache_match DYNAMIC_CACHE ?rq (settled (snd ?stale)) = Some page"
    by (simp add: settled_def resolved)
  from stale_while_revalidate_snapshot_first[OF b, of _ page] miss resolved new
  have 7: "fst ?first = Inr page" by blast
  from stale_while_revalidate_snapshot_first[OF c, of _ _ "TypeError ''Failed to fetch''"]
       miss rejected
  have 8: "fst ?fail = Inl (Error ''No cached response and network unavailable'')" by blast
  show ?thesis
    by (intro conjI hit new 1 5 6 miss 7 8)
qed

text \<open>
  C4 as it is stated fails for a response \<open>cache.put\<close> refuses: with nothing stored, the
  awaited fetch resolves with a partial response (status 206), the rejected put is swallowed,
  and the call fails as if the network were down instead of returning the response.
\<close>

theorem stale_while_revalidate_partial_response_lost:
  "cache_match DYNAMIC_CACHE (get_request ''https://mindchat.app/media/intro.mp3'') initial_state = None
   \<and> online partial_content (length (fetched initial_state))
        (get_request ''https://mindchat.app/media/intro.mp3'') = Inr partial_content
   \<and> fst (staleWhileRevalidateStrategy (online partial_content)
        (get_request ''https://mindchat.app/media/intro.mp3'') DYNAMIC_CACHE initial_state)
       = Inl (Error ''No cached response and network unavailable'')
   \<and> partition_of DYNAMIC_CACHE (fst (snd (staleWhileRevalidateStrategy (online partial_content)
        (get_request ''https://mindchat.app/media/intro.mp3'') DYNAMIC_CACHE initial_state)))
       = []"
proof -
  let ?rq = "get_request ''https://mindchat.app/media/intro.mp3''"
  have miss: "cache_match DYNAMIC_CACHE ?rq initial_state = None"
    by (rule initial_match)
  have resolved: "online partial_content (length (fetched initial_state)) ?rq = Inr partial_content"
    by (simp add: online_def)
  have refused: "online partial_content (length (fetched initial_state)) ?rq = Inl e \<or>
                 (online partial_content (length (fetched initial_state)) ?rq = Inr partial_content \<and>
                  put_refuses ?rq partial_content)" for e
    using resolved refuses_partial by simp
  note lost = swr_miss_failed[where net = "online partial_content", OF miss refused]
  have "partition_of DYNAMIC_CACHE initial_state = []"
    by (simp add: partition_of_def initial_state_def)
  with lost(2)[where n = DYNAMIC_CACHE]
  have 2: "partition_of DYNAMIC_CACHE (fst (snd (staleWhileRevalidateStrategy (online partial_content)
             ?rq DYNAMIC_CACHE initial_state))) = []"
    by simp
  show ?thesis
    by (intro conjI miss resolved lost(1) 2)
qed

text \<open>
  C10 (no look at the status), as the code has it. No strategy looks at the status, but
  \<open>cache.put\<close> does. Whenever the fetch of a strategy resolves with a response \<open>cache.put\<close>
  accepts, whatever its status, the partition holds that response for the request
  afterwards: after cache-first on a miss, after network-first (which also returns it,
  whatever was stored before), and after stale-while-revalidate once its fetch has settled.
  Whenever the fetch is rejected, or resolves with a response \<open>cache.put\<close> refuses, every
  partition holds what it held before.
\<close>

theorem resolved_response_stored_whatever_status:
  "(cache_match cacheName request st = None \<and>
    net (length (fetched st)) request = Inr r \<and> \<not> put_refuses request r \<longrightarrow>
      cache_match cacheName request (snd (cacheFirstStrategy net request cacheName st)) = Some r)
   \<and> (net (length (fetched st)) request = Inr r \<and> \<not> put_refuses request r \<longrightarrow>
        fst (networkFirstStrategy net request cacheName st) = Inr r
        \<and> cache_match cacheName request (snd (networkFirstStrategy net request cacheName st))
            = Some r
        \<and> cache_match cacheName request
            (settled (snd (staleWhileRevalidateStrategy net request cacheName st))) = Some r)
   \<and> (net (length (fetched st)) request = Inl e \<or>
        (net (length (fetched st)) request = Inr r \<and> put_refuses request r) \<longrightarrow>
        partition_of n (snd (cacheFirstStrategy net request cacheName st)) = partition_of n st
        \<and> partition_of n (snd (networkFirstStrategy net request cacheName st)) = partition_of n st
        \<and> partition_of n (settled (snd (staleWhileRevalidateStrategy net request cacheName st)))
            = partition_of n st)
   \<and> (\<forall>s. put_refuses request (r\<lparr>status := s\<rparr>) =
            (put_refuses request (r\<lparr>status := 200\<rparr>) \<or> s = 206))"
proof (intro conjI impI allI)
  assume "cache_match cacheName request st = None \<and>
          net (length (fetched st)) request = Inr r \<and> \<not> put_refuses request r"
  then have miss: "cache_match cacheName request st = None"
    and resolved: "net (length (fetched st)) request = Inr r"
    and accepted: "\<not> put_refuses request r" by simp_all
  show "cache_match cacheName request (snd (cacheFirstStrategy net request cacheName st)) = Some r"
    by (rule cacheFirst_miss_stored(2)[where net = net, OF miss resolved accepted])
next
  assume "net (length (fetched st)) request = Inr r \<and> \<not> put_refuses request r"
  then have resolved: "net (length (fetched st)) request = Inr r"
    and accepted: "\<not> put_refuses request r" by simp_all
  show "fst (networkFirstStrategy net request cacheName st) = Inr r"
    by (rule networkFirst_stored(1)[where net = net, OF resolved accepted])
  show "cache_match cacheName request (snd (networkFirstStrategy net request cacheName st)) = Some r"
    by (rule networkFirst_stored(2)[where net = net, OF resolved accepted])
  show "cache_match cacheName request
          (settled (snd (staleWhileRevalidateStrategy net request cacheName st))) = Some r"
    by (rule swr_settled_stored[where net = net, OF resolved accepted])
next
  assume unstored: "net (length (fetched st)) request = Inl e \<or>
          (net (length (fetched st)) request = Inr r \<and> put_refuses request r)"
  show "partition_of n (snd (cacheFirstStrategy net request cacheName st)) = partition_of n st"
    by (rule cacheFirst_unchanged[where net = net, OF unstored])
  show "partition_of n (snd (networkFirstStrategy net request cacheName st)) = partition_of n st"
    by (rule networkFirst_unchanged[where net = net, OF unstored])
  show "partition_of n (settled (snd (staleWhileRevalidateStrategy net request cacheName st)))
          = partition_of n st"
    by (rule swr_settled_unchanged[where net = net, OF unstored])
next
  fix s
  show "put_refuses request (r\<lparr>status := s\<rparr>) =
          (put_refuses request (r\<lparr>status := 200\<rparr>) \<or> s = 206)"
    by (auto simp: put_refuses_def vary_fields_def)
qed

theorem resolved_response_stored_whatever_status_witness:
  "status server_error = 500
   \<and> \<not> put_refuses (get_request ''https://mindchat.app/api/mood'') server_error
   \<and> cache_match DYNAMIC_CACHE (get_request ''https://mindchat.app/api/mood'') initial_state = None
   \<and> online server_error (length (fetched initial_state)) (get_request ''https://mindchat.app/api/mood'')
       = Inr server_error
   \<and> cache_match DYNAMIC_CACHE (get_request ''https://mindchat.app/api/mood'')
        (snd (cacheFirstStrategy (online server_error) (get_request ''https://mindchat.app/api/mood'')
               DYNAMIC_CACHE initial_state)) = Some server_error
   \<and> cache_match DYNAMIC_CACHE (get_request ''https://mindchat.app/api/mood'')
        (holding DYNAMIC_CACHE (get_request ''https://mindchat.app/api/mood'') page) = Some page
   \<and> online server_error
        (length (fetched (holding DYNAMIC_CACHE (get_request ''https://mindchat.app/api/mood'') page)))
        (get_request ''https://mindchat.app/api/mood'') = Inr server_error
   \<and> fst (networkFirstStrategy (online server_error) (get_request ''https://mindchat.app/api/mood'')
            DYNAMIC_CACHE (holding DYNAMIC_CACHE (get_request ''https://mindchat.app/api/mood'') page))
       = Inr server_error
   \<and> cache_match DYNAMIC_CACHE (get_request ''https://mindchat.app/api/mood'')
        (snd (networkFirstStrategy (online server_error) (get_request ''https://mindchat.app/api/mood'')
               DYNAMIC_CACHE (holding DYNAMIC_CACHE (get_request ''https://mindchat.app/api/mood'') page)))
       = Some server_error
   \<and> cache_match DYNAMIC_CACHE (get_request ''https://mindchat.app/api/mood'')
        (settled (snd (staleWhileRevalidateStrategy (online server_error)
               (get_request ''https://mindchat.app/api/mood'')
               DYNAMIC_CACHE (holding DYNAMIC_CACHE (get_request ''https://mindchat.app/api/mood'') page))))
       = Some server_error
   \<and> offline (length (fetched (holding DYNAMIC_CACHE (get_request ''https://mindchat.app/api/mood'') page)))
        (get_request ''https://mindchat.app/api/mood'') = Inl (TypeError ''Failed to fetch'')
   \<and> partition_of DYNAMIC_CACHE
        (snd (networkFirstStrategy offline (get_request ''https://mindchat.app/api/mood'')
               DYNAMIC_CACHE (holding DYNAMIC_CACHE (get_request ''https://mindchat.app/api/mood'') page)))
       = partition_of DYNAMIC_CACHE (holding DYNAMIC_CACHE (get_request ''https://mindchat.app/api/mood'') page)
   \<and> put_refuses (get_request ''https://mindchat.app/api/mood'') (server_error\<lparr>status := 206\<rparr>)"
proof -
  let ?rq = "get_request ''https://mindchat.app/api/mood''"
  let ?held = "holding DYNAMIC_CACHE ?rq page"
  have s: "status server_error = 500"
    by (simp add: server_error_def)
  have accepted: "\<not> put_refuses ?rq server_error" and good: "\<not> put_refuses ?rq page"
    using accepts_server_error[of "''mindchat.app/api/mood''"]
          accepts_page[of "''mindchat.app/api/mood''"] by simp_all
  have resolved: "online server_error n ?rq = Inr server_error" for n
    by (simp add: online_def)
  have rejected: "offline n ?rq = Inl (TypeError ''Failed to fetch'')" for n
    by (simp add: offline_def)
  have miss: "cache_match DYNAMIC_CACHE ?rq initial_state = None"
    by (rule initial_match)
  have hit: "cache_match DYNAMIC_CACHE ?rq ?held = Some page"
    by (rule holding_match[OF good])
  note a = resolved_response_stored_whatever_status
             [where cacheName = DYNAMIC_CACHE and request = ?rq and st = initial_state
                and net = "online server_error" and r = server_error]
  note b = resolved_response_stored_whatever_status
             [where cacheName = DYNAMIC_CACHE and request = ?rq and st = ?held
                and net = "online server_error" and r = server_error]
  note c = resolved_response_stored_whatever_status
             [where cacheName = DYNAMIC_CACHE and request = ?rq and st = ?held
                and net = offline and e = "TypeError ''Failed to fetch''" and n = DYNAMIC_CACHE]
  from a miss resolved accepted have 1:
    "cache_match DYNAMIC_CACHE ?rq
       (snd (cacheFirstStrategy (online server_error) ?rq DYNAMIC_CACHE initial_state))
     = Some server_error" by blast
  from b resolved accepted have 2:
    "fst (networkFirstStrategy (online server_error) ?rq DYNAMIC_CACHE ?held) = Inr server_error"
    "cache_match DYNAMIC_CACHE ?rq
       (snd (networkFirstStrategy (online server_error) ?rq DYNAMIC_CACHE ?held))
     = Some server_error"
    "cache_match DYNAMIC_CACHE ?rq
       (settled (snd (staleWhileRevalidateStrategy (online server_error) ?rq DYNAMIC_CACHE ?held)))
     = Some server_error" by blast+
  from c rejected have 3:
    "partition_of DYNAMIC_CACHE (snd (networkFirstStrategy offline ?rq DYNAMIC_CACHE ?held))
     = partition_of DYNAMIC_CACHE ?held" by blast
  from a accepted have 4: "put_refuses ?rq (server_error\<lparr>status := 206\<rparr>)"
    by blast
  show ?thesis
    by (intro conjI s accepted miss resolved 1 hit 2 rejected 3 4)
qed

text \<open>
  C10 as it is stated fails at the status 206: the fetch of network-first resolves with a
  partial response, which is neither stored nor returned, and the partition is left as it
  was although the fetch was not rejected.
\<close>

theorem partial_response_neither_stored_nor_returned:
  "status partial_content = 206
   \<and> online partial_content
        (length (fetched (holding DYNAMIC_CACHE (get_request ''https://mindchat.app/api/cbt/sessions'') page)))
        (get_request ''https://mindchat.app/api/cbt/sessions'') = Inr partial_content
   \<and> fst (networkFirstStrategy (online partial_content)
        (get_request ''https://mindchat.app/api/cbt/sessions'') DYNAMIC_CACHE
        (holding DYNAMIC_CACHE (get_request ''https://mindchat.app/api/cbt/sessions'') page)) = Inr page
   \<and> partition_of DYNAMIC_CACHE (snd (networkFirstStrategy (online partial_content)
        (get_request ''https://mindchat.app/api/cbt/sessions'') DYNAMIC_CACHE
        (holding DYNAMIC_CACHE (get_request ''https://mindchat.app/api/cbt/sessions'') page)))
       = [(get_request ''https://mindchat.app/api/cbt/sessions'', page)]
   \<and> page \<noteq> partial_content"
proof -
  let ?rq = "get_request ''https://mindchat.app/api/cbt/sessions''"
  let ?held = "holding DYNAMIC_CACHE ?rq page"
  have good: "\<not> put_refuses ?rq page"
    using accepts_page[of "''mindchat.app/api/cbt/sessions''"] by simp
  have s: "status partial_content = 206"
    by (simp add: partial_content_def)
  have resolved: "online partial_content (length (fetched ?held)) ?rq = Inr partial_content"
    by (simp add: online_def)
  note run = networkFirst_refused_hit[where net = "online partial_content",
               OF resolved refuses_partial holding_match[OF good]]
  have 1: "fst (networkFirstStrategy (online partial_content) ?rq DYNAMIC_CACHE ?held) = Inr page"
    by (simp add: run)
  have held: "partition_of DYNAMIC_CACHE ?held = [(?rq, page)]"
    by (simp add: holding_def partition_of_store keys_open partition_of_open)
       (simp add: partition_of_def initial_state_def)
  have 2: "partition_of DYNAMIC_CACHE
             (snd (networkFirstStrategy (online partial_content) ?rq DYNAMIC_CACHE ?held))
           = [(?rq, page)]"
    by (simp add: run held)
  have 3: "page \<noteq> partial_content"
    by (simp add: page_def partial_content_def)
  show ?thesis
    by (intro conjI s resolved 1 2 3)
qed



text \<open>
  C6 (replay), as the code has it. The stored ids being distinct, as the key generator makes
  them, a replay sends the pending requests in their stored order, one fetch each, and goes
  on after a failure. Afterwards the pending requests are, in the same order, those whose
  own fetch did not resolve with an ok response: an entry stays exactly when its own replay
  did not succeed. When every replay succeeds nothing is left.
\<close>

theorem replay_removes_exactly_the_succeeded:
  assumes "distinct (map rd_id (pending_requests st))"
  shows "fetched (syncPendingRequests net st) = fetched st @ map replayed (pending_requests st)
       \<and> pending_requests (syncPendingRequests net st) =
           map snd (filter (\<lambda>(i, requestData). \<not> succeeded (net i (replayed requestData)))
                      (enumerate (length (fetched st)) (pending_requests st)))
       \<and> (\<forall>k < length (pending_requests st).
            (pending_requests st ! k \<in> set (pending_requests (syncPendingRequests net st))) =
            (\<not> succeeded (net (length (fetched st) + k) (replayed (pending_requests st ! k)))))
       \<and> ((\<forall>k < length (pending_requests st).
              succeeded (net (length (fetched st) + k) (replayed (pending_requests st ! k)))) \<longrightarrow>
            pending_requests (syncPendingRequests net st) = [])"
proof (intro conjI allI impI)
  show "fetched (syncPendingRequests net st) = fetched st @ map replayed (pending_requests st)"
    by (simp add: syncPendingRequests_def replay_fetched)
  show "pending_requests (syncPendingRequests net st) =
           map snd (filter (\<lambda>(i, requestData). \<not> succeeded (net i (replayed requestData)))
                      (enumerate (length (fetched st)) (pending_requests st)))"
    by (rule sync_pending[OF assms])
next
  fix k assume "k < length (pending_requests st)"
  then show "(pending_requests st ! k \<in> set (pending_requests (syncPendingRequests net st))) =
            (\<not> succeeded (net (length (fetched st) + k) (replayed (pending_requests st ! k))))"
    by (rule sync_entry_kept_iff[OF assms])
next
  assume "\<forall>k < length (pending_requests st).
            succeeded (net (length (fetched st) + k) (replayed (pending_requests st ! k)))"
  then show "pending_requests (syncPendingRequests net st) = []"
    by (rule sync_all_succeeded[OF assms])
qed

theorem replay_removes_exactly_the_succeeded_witness:
  "distinct (map rd_id (pending_requests two_pending))
   \<and> succeeded (online page 0 (replayed first_entry))
   \<and> succeeded (online page 1 (replayed second_entry))
   \<and> pending_requests (syncPendingRequests (online page) two_pending) = []
   \<and> fetched (syncPendingRequests (online page) two_pending) =
       [replayed first_entry, replayed second_entry]
   \<and> \<not> succeeded (fails_then_succeeds 0 (replayed first_entry))
   \<and> succeeded (fails_then_succeeds 1 (replayed second_entry))
   \<and> first_entry \<in> set (pending_requests (syncPendingRequests fails_then_succeeds two_pending))
   \<and> second_entry \<notin> set (pending_requests (syncPendingRequests fails_then_succeeds two_pending))"
proof -
  have ids: "distinct (map rd_id (pending_requests two_pending))"
    by (simp add: two_pending_def first_entry_def second_entry_def)
  have pending: "pending_requests two_pending = [first_entry, second_entry]"
    and none: "fetched two_pending = []"
    by (simp_all add: two_pending_def initial_state_def)
  have up: "succeeded (online page n rq)" for n rq
    by (simp add: succeeded_def online_def ok_def page_def)
  have down: "\<not> succeeded (fails_then_succeeds 0 (replayed first_entry))"
    and up_again: "succeeded (fails_then_succeeds 1 (replayed second_entry))"
    by (simp_all add: succeeded_def fails_then_succeeds_def ok_def page_def)
  note a = replay_removes_exactly_the_succeeded[OF ids, of "online page"]
  note b = replay_removes_exactly_the_succeeded[OF ids, of fails_then_succeeds]
  from a up have 1: "pending_requests (syncPendingRequests (online page) two_pending) = []"
    by blast
  from a have 2: "fetched (syncPendingRequests (online page) two_pending) =
                    [replayed first_entry, replayed second_entry]"
    by (simp add: pending none)
  from b have kept: "\<forall>k < length (pending_requests two_pending).
            (pending_requests two_pending ! k \<in>
               set (pending_requests (syncPendingRequests fails_then_succeeds two_pending))) =
            (\<not> succeeded (fails_then_succeeds (length (fetched two_pending) + k)
                   (replayed (pending_requests two_pending ! k))))"
    by blast
  from kept[rule_format, of 0] down
  have 3: "first_entry \<in> set (pending_requests (syncPendingRequests fails_then_succeeds two_pending))"
    by (simp add: pending none)
  from kept[rule_format, of 1] up_again
  have 4: "second_entry \<notin> set (pending_requests (syncPendingRequests fails_then_succeeds two_pending))"
    by (simp add: pending none)
  show ?thesis
    by (intro conjI ids up 1 2 down up_again 3 4)
qed

text \<open>
  C6 as it is stated fails on its last part: the replay of the first of two entries fails,
  yet the second entry does not stay queued. It is replayed in the same pass, succeeds and
  is removed.
\<close>

theorem later_entry_removed_after_failed_replay:
  "pending_requests two_pending = [first_entry, second_entry]
   \<and> \<not> succeeded (fails_then_succeeds (length (fetched two_pending)) (replayed first_entry))
   \<and> pending_requests (syncPendingRequests fails_then_succeeds two_pending) = [first_entry]
   \<and> second_entry \<notin> set (pending_requests (syncPendingRequests fails_then_succeeds two_pending))"
  by (simp add: syncPendingRequests_def two_pending_def initial_state_def fetch_eq succeeded_def
        fails_then_succeeds_def page_def ok_def store_delete_def first_entry_def second_entry_def)

text \<open>
  C7 (collection at activation), as the code has it. Activation keeps, in their order and
  with their entries, exactly the existing partitions named as the static, the dynamic or
  the audio cache of the current version; it deletes every other partition, creates none,
  and leaves the object stores as they are. No other listener removes a partition or a
  stored url from a partition: not installation, not a fetch event (also once its fetch in
  flight has settled), not a sync event of any tag, not a push, not a click on a
  notification, not a periodic sync of any tag, and not a message other than
  \<open>CLEAR_CACHE\<close>. With the partitions of an old version and the static partition of the
  current one, only the latter exists afterwards.
\<close>

theorem activation_keeps_existing_expected_partitions:
  "caches (activate st) =
     filter (\<lambda>(name, c). name \<in> {STATIC_CACHE, DYNAMIC_CACHE, AUDIO_CACHE}) (caches st)
   \<and> (\<forall>name. (name \<in> set (caches_keys (activate st))) =
         (name \<in> set (caches_keys st) \<and> name \<in> {STATIC_CACHE, DYNAMIC_CACHE, AUDIO_CACHE}))
   \<and> (\<forall>name \<in> {STATIC_CACHE, DYNAMIC_CACHE, AUDIO_CACHE}.
         partition_of name (activate st) = partition_of name st)
   \<and> pending_requests (activate st) = pending_requests st
   \<and> mood_data (activate st) = mood_data st
   \<and> session_progress (activate st) = session_progress st
   \<and> partitions_retained st (install net st)
   \<and> (on_fetch net now request st = RespondWith r st' job \<longrightarrow>
         partitions_retained st st' \<and> partitions_retained st (settled (st', job)))
   \<and> partitions_retained st (on_sync net event_tag st)
   \<and> partitions_retained st (on_push event_data st)
   \<and> partitions_retained st (on_notificationclick n st)
   \<and> partitions_retained st (on_periodicsync now today event_tag st)
   \<and> (message_type m \<noteq> ''CLEAR_CACHE'' \<longrightarrow> partitions_retained st (on_message net m st))
   \<and> caches_keys (activate before_activation) = [STATIC_CACHE]"
proof (intro conjI allI ballI impI)
  show "caches (activate st) =
     filter (\<lambda>(name, c). name \<in> {STATIC_CACHE, DYNAMIC_CACHE, AUDIO_CACHE}) (caches st)"
    by (simp add: activate_eq)
  show "(name \<in> set (caches_keys (activate st))) =
         (name \<in> set (caches_keys st) \<and> name \<in> {STATIC_CACHE, DYNAMIC_CACHE, AUDIO_CACHE})" for name
    by (rule caches_keys_activate)
  show "partition_of name (activate st) = partition_of name st"
    if "name \<in> {STATIC_CACHE, DYNAMIC_CACHE, AUDIO_CACHE}" for name
    using that by (rule partition_of_activate)
  show "pending_requests (activate st) = pending_requests st"
    and "mood_data (activate st) = mood_data st"
    and "session_progress (activate st) = session_progress st"
    by (simp_all add: activate_eq)
  show "partitions_retained st (install net st)"
    by (rule partitions_retained_install)
  show "partitions_retained st (on_sync net event_tag st)"
    by (rule partitions_retained_on_sync)
  show "partitions_retained st (on_push event_data st)"
    by (rule partitions_retained_on_push)
  show "partitions_retained st (on_notificationclick n st)"
    by (rule partitions_retained_on_notificationclick)
  show "partitions_retained st (on_periodicsync now today event_tag st)"
    by (rule partitions_retained_on_periodicsync)
  show "caches_keys (activate before_activation) = [STATIC_CACHE]"
    by (rule activate_example)
next
  assume "on_fetch net now request st = RespondWith r st' job"
  then show "partitions_retained st st'" and "partitions_retained st (settled (st', job))"
    by (rule partitions_retained_on_fetch)+
next
  assume "message_type m \<noteq> ''CLEAR_CACHE''"
  then show "partitions_retained st (on_message net m st)"
    by (rule partitions_retained_on_message)
qed

theorem activation_keeps_existing_expected_partitions_witness:
  "STATIC_CACHE \<in> {STATIC_CACHE, DYNAMIC_CACHE, AUDIO_CACHE}
   \<and> partition_of STATIC_CACHE (activate (holding STATIC_CACHE (get_request ''https://mindchat.app/'') page))
       = partition_of STATIC_CACHE (holding STATIC_CACHE (get_request ''https://mindchat.app/'') page)
   \<and> on_fetch (online page) 1000 (get_request ''https://mindchat.app/api/mood'') in_use =
       RespondWith (Inr page)
         (cache_store DYNAMIC_CACHE (get_request ''https://mindchat.app/api/mood'') page
            (in_use\<lparr>fetched := [get_request ''https://mindchat.app/api/mood'']\<rparr>)) None
   \<and> partitions_retained in_use
        (cache_store DYNAMIC_CACHE (get_request ''https://mindchat.app/api/mood'') page
           (in_use\<lparr>fetched := [get_request ''https://mindchat.app/api/mood'']\<rparr>))
   \<and> message_type sync_now \<noteq> ''CLEAR_CACHE''
   \<and> partitions_retained in_use (on_message offline sync_now in_use)"
proof -
  let ?held = "holding STATIC_CACHE (get_request ''https://mindchat.app/'') page"
  let ?rq = "get_request ''https://mindchat.app/api/mood''"
  let ?after = "cache_store DYNAMIC_CACHE ?rq page (in_use\<lparr>fetched := [?rq]\<rparr>)"
  have expected: "STATIC_CACHE \<in> {STATIC_CACHE, DYNAMIC_CACHE, AUDIO_CACHE}"
    by simp
  have u: "url ?rq = ''https://mindchat.app/api/mood''"
    and get: "request_method ?rq = ''GET''"
    by (simp_all add: get_request_def)
  have accepted: "\<not> put_refuses ?rq page"
    using accepts_page[of "''mindchat.app/api/mood''"] by simp
  have fresh: "networkFirstStrategy (online page) ?rq DYNAMIC_CACHE in_use = (Inr page, ?after)"
    using accepted
    by (simp add: networkFirstStrategy_def fetch_eq Let_def online_def cache_put_accepted
          caches_open_existing in_use_def initial_state_def caches_keys_def)
  have answered: "on_fetch (online page) 1000 ?rq in_use = RespondWith (Inr page) ?after None"
    using get fresh
    by (simp add: on_fetch_def Let_def handleGetRequest_def awaited_def catch_fallback_Inr u
          pathname_mood STATIC_ASSETS_def suffix_to_prefix sublist_code)
  have other: "message_type sync_now \<noteq> ''CLEAR_CACHE''"
    by (simp add: sync_now_def)
  from activation_keeps_existing_expected_partitions[where st = ?held] expected
  have 1: "partition_of STATIC_CACHE (activate ?held) = partition_of STATIC_CACHE ?held"
    by blast
  from activation_keeps_existing_expected_partitions
         [where st = in_use and net = "online page" and now = 1000 and request = ?rq
            and r = "Inr page" and st' = ?after and job = None]
       answered
  have 2: "partitions_retained in_use ?after"
    by blast
  from activation_keeps_existing_expected_partitions
         [where st = in_use and net = offline and m = sync_now] other
  have 3: "partitions_retained in_use (on_message offline sync_now in_use)"
    by blast
  show ?thesis
    by (intro conjI expected 1 answered 2 other 3)
qed

text \<open>
  C7 as it is stated fails on its example: before activation the partitions are the static
  and the dynamic one of an old version and the static one of the current version; after
  activation the dynamic partition of the current version is not among the partitions.
  Activation deletes and never creates.
\<close>

theorem activation_creates_no_partition:
  "caches_keys before_activation = [''mindchat-static-v0'', ''mindchat-dynamic-v0'', STATIC_CACHE]
   \<and> caches_keys (activate before_activation) = [STATIC_CACHE]
   \<and> DYNAMIC_CACHE \<notin> set (caches_keys (activate before_activation))"
  by (simp add: activate_eq before_activation_def caches_keys_def STATIC_CACHE_def
        DYNAMIC_CACHE_def AUDIO_CACHE_def)

text \<open>
  C8 (the support check), as the code has it. The check counts the mood records whose date
  is not earlier than 72 hours (259200000 ms) before the tick and whose value is at most 2,
  and shows the support notification, which requires interaction, once, exactly when the
  count is at least 3; nothing else changes. Records dated exactly one, two and three days
  before the tick with values 1, 2, 2 make it fire; two records with values 4 and 5 never do.
\<close>

theorem support_check_counts_low_moods_of_72_hours:
  "checkCrisisSupport now st =
     (if 3 \<le> length (filter (\<lambda>m. now - 259200000 \<le> date m \<and> mood_value m \<le> 2) (mood_data st))
      then st\<lparr>notifications := notifications st @ [support_notification]\<rparr>
      else st)
   \<and> requireInteraction support_notification
   \<and> (mood_data st =
         [\<lparr>date = now - day, mood_value = 1\<rparr>, \<lparr>date = now - 2 * day, mood_value = 2\<rparr>,
          \<lparr>date = now - 3 * day, mood_value = 2\<rparr>] \<longrightarrow>
        notifications (checkCrisisSupport now st) = notifications st @ [support_notification])
   \<and> (mood_data st = [\<lparr>date = d1, mood_value = 4\<rparr>, \<lparr>date = d2, mood_value = 5\<rparr>] \<longrightarrow>
        checkCrisisSupport now st = st)"
  by (simp add: checkCrisisSupport_def Let_def support_notification_def day_def)

theorem support_check_counts_low_moods_of_72_hours_witness:
  "mood_data (initial_state\<lparr>mood_data :=
       [\<lparr>date = noon_of_day_ten - day, mood_value = 1\<rparr>,
        \<lparr>date = noon_of_day_ten - 2 * day, mood_value = 2\<rparr>,
        \<lparr>date = noon_of_day_ten - 3 * day, mood_value = 2\<rparr>]\<rparr>) =
     [\<lparr>date = noon_of_day_ten - day, mood_value = 1\<rparr>,
      \<lparr>date = noon_of_day_ten - 2 * day, mood_value = 2\<rparr>,
      \<lparr>date = noon_of_day_ten - 3 * day, mood_value = 2\<rparr>]
   \<and> notifications (checkCrisisSupport noon_of_day_ten (initial_state\<lparr>mood_data :=
       [\<lparr>date = noon_of_day_ten - day, mood_value = 1\<rparr>,
        \<lparr>date = noon_of_day_ten - 2 * day, mood_value = 2\<rparr>,
        \<lparr>date = noon_of_day_ten - 3 * day, mood_value = 2\<rparr>]\<rparr>)) = [support_notification]
   \<and> checkCrisisSupport noon_of_day_ten (initial_state\<lparr>mood_data :=
       [\<lparr>date = midnight 9, mood_value = 4\<rparr>, \<lparr>date = midnight 8, mood_value = 5\<rparr>]\<rparr>)
     = initial_state\<lparr>mood_data :=
       [\<lparr>date = midnight 9, mood_value = 4\<rparr>, \<lparr>date = midnight 8, mood_value = 5\<rparr>]\<rparr>"
proof -
  let ?low = "initial_state\<lparr>mood_data :=
       [\<lparr>date = noon_of_day_ten - day, mood_value = 1\<rparr>,
        \<lparr>date = noon_of_day_ten - 2 * day, mood_value = 2\<rparr>,
        \<lparr>date = noon_of_day_ten - 3 * day, mood_value = 2\<rparr>]\<rparr>"
  let ?high = "initial_state\<lparr>mood_data :=
       [\<lparr>date = midnight 9, mood_value = 4\<rparr>, \<lparr>date = midnight 8, mood_value = 5\<rparr>]\<rparr>"
  have low: "mood_data ?low =
     [\<lparr>date = noon_of_day_ten - day, mood_value = 1\<rparr>,
      \<lparr>date = noon_of_day_ten - 2 * day, mood_value = 2\<rparr>,
      \<lparr>date = noon_of_day_ten - 3 * day, mood_value = 2\<rparr>]"
    by simp
  have high: "mood_data ?high =
     [\<lparr>date = midnight 9, mood_value = 4\<rparr>, \<lparr>date = midnight 8, mood_value = 5\<rparr>]"
    by simp
  have quiet: "notifications ?low = []"
    by (simp add: initial_state_def)
  from support_check_counts_low_moods_of_72_hours[of noon_of_day_ten ?low] low
  have "notifications (checkCrisisSupport noon_of_day_ten ?low) =
          notifications ?low @ [support_notification]"
    by blast
  with quiet have 1: "notifications (checkCrisisSupport noon_of_day_ten ?low) = [support_notification]"
    by simp
  from support_check_counts_low_moods_of_72_hours[of noon_of_day_ten ?high "midnight 9" "midnight 8"] high
  have 2: "checkCrisisSupport noon_of_day_ten ?high = ?high"
    by blast
  show ?thesis
    by (intro conjI low 1 2)
qed

text \<open>
  C8 as it is stated fails on its own example once the records carry calendar dates: at noon
  of day 10, records dated (at midnight, as a date-only string is read) one, two and three
  calendar days back with values 1, 2, 2 do not fire the trigger. The third record is 84
  hours old, outside the 72 hours the code looks back.
\<close>

theorem third_calendar_day_back_not_counted:
  "noon_of_day_ten div day = 10
   \<and> midnight 9 div day = 9 \<and> midnight 8 div day = 8 \<and> midnight 7 div day = 7
   \<and> notifications (checkCrisisSupport noon_of_day_ten (initial_state\<lparr>mood_data :=
        [\<lparr>date = midnight 9, mood_value = 1\<rparr>, \<lparr>date = midnight 8, mood_value = 2\<rparr>,
         \<lparr>date = midnight 7, mood_value = 2\<rparr>]\<rparr>)) = []"
  by (simp add: checkCrisisSupport_def Let_def noon_of_day_ten_def midnight_def day_def
        initial_state_def)

text \<open>
  C9 (clear-all), as the code has it. The \<open>CLEAR_CACHE\<close> command deletes every cache
  partition and touches nothing else: the pending requests and the other stores of the
  database are what they were.
\<close>

theorem clear_cache_deletes_partitions_only:
  "message_type m = ''CLEAR_CACHE'' \<longrightarrow>
     on_message net m st = st\<lparr>caches := []\<rparr>
     \<and> caches_keys (on_message net m st) = []
     \<and> pending_requests (on_message net m st) = pending_requests st
     \<and> mood_data (on_message net m st) = mood_data st"
  by (simp add: on_message_def clearAllCaches_eq caches_keys_def)

theorem clear_cache_deletes_partitions_only_witness:
  "message_type clear_cache = ''CLEAR_CACHE''
   \<and> caches_keys in_use = [STATIC_CACHE, DYNAMIC_CACHE]
   \<and> on_message offline clear_cache in_use = in_use\<lparr>caches := []\<rparr>
   \<and> caches_keys (on_message offline clear_cache in_use) = []"
proof -
  have c: "message_type clear_cache = ''CLEAR_CACHE''"
    by (simp add: clear_cache_def)
  have k: "caches_keys in_use = [STATIC_CACHE, DYNAMIC_CACHE]"
    by (simp add: caches_keys_def in_use_def)
  from clear_cache_deletes_partitions_only[of clear_cache offline in_use] c
  have 1: "on_message offline clear_cache in_use = in_use\<lparr>caches := []\<rparr>"
    and 2: "caches_keys (on_message offline clear_cache in_use) = []"
    by blast+
  show ?thesis
    by (intro conjI c k 1 2)
qed

text \<open>
  C9 as it is stated fails: after \<open>CLEAR_CACHE\<close> on a worker with two partitions and one
  pending request, the partitions are gone and the pending request is still queued.
\<close>

theorem clear_cache_keeps_pending_requests:
  "pending_requests in_use = [first_entry]
   \<and> caches_keys (on_message offline clear_cache in_use) = []
   \<and> pending_requests (on_message offline clear_cache in_use) = [first_entry]"
  by (simp add: on_message_def clear_cache_def clearAllCaches_eq caches_keys_def in_use_def)


end
